theory Spec2Isabelle
  imports Complex_Main
begin

section \<open>JavaScript strings and numbers\<close>

text \<open>
  A JavaScript string is a sequence of UTF-16 code units; a code unit is modelled by its
  numeric value. String literals of the source are written with \<open>js\<close>.
\<close>

type_synonym jsstring = "nat list"

definition js :: "string \<Rightarrow> jsstring" where
  "js s = map of_char s"

text \<open>
  The regular expression classes \<^verbatim>\<open>\s\<close> and \<^verbatim>\<open>\d\<close> of ECMAScript: white space and
  line terminators (including the non-ASCII ones), and the ten ASCII digits.
\<close>

definition is_space :: "nat \<Rightarrow> bool" where
  "is_space u \<longleftrightarrow>
     u \<in> {9, 10, 11, 12, 13, 32, 160, 5760, 8232, 8233, 8239, 8287, 12288, 65279}
     \<or> (8192 \<le> u \<and> u \<le> 8202)"

definition is_digit :: "nat \<Rightarrow> bool" where
  "is_digit u \<longleftrightarrow> 48 \<le> u \<and> u \<le> 57"

text \<open>
  Case folding of the \<^verbatim>\<open>i\<close> flag (without the \<^verbatim>\<open>u\<close> flag). ECMAScript compares the
  upper-case forms of single code units and never folds a code unit of value 128 or more
  to one below 128. Every pattern character of this program is an ASCII letter, so it is
  enough to fold the ASCII lower-case letters and to leave every other code unit alone.
\<close>

definition canonicalize :: "nat \<Rightarrow> nat" where
  "canonicalize u = (if 97 \<le> u \<and> u \<le> 122 then u - 32 else u)"

text \<open>
  \<^verbatim>\<open>parseInt(m[1], 10)\<close> on a string of digits, and the decimal rendering of a positive
  integer by a template literal. A Number is a double, which is exact on integers below
  \<open>2 ^ 53\<close>; the counter of \<open>nextAutoName\<close> never exceeds the number of names plus one
  (lemma \<open>nextAutoName_counter_bound\<close>) and an array has fewer than \<open>2 ^ 32\<close> elements, so the
  rounding of larger parsed values to doubles, all of them at least \<open>2 ^ 53\<close>, is never
  observed.
\<close>

definition parseInt10 :: "jsstring \<Rightarrow> nat" where
  "parseInt10 ds = foldl (\<lambda>acc d. 10 * acc + (d - 48)) 0 ds"

fun toString :: "nat \<Rightarrow> jsstring" where
  "toString n = (if n < 10 then [48 + n] else toString (n div 10) @ [48 + n mod 10])"

declare toString.simps [simp del]

section \<open>Auto-naming (src/lib/naming.ts)\<close>

text \<open>
  The base labels: the three of the declared parameter type and the module prefixes that
  \<open>ensureProject\<close> passes through a cast.
\<close>

datatype base_label = Project | Scenario | Result | GFA | DF | IO | Network | Transport

fun label :: "base_label \<Rightarrow> jsstring" where
  "label Project = js ''Project''"
| "label Scenario = js ''Scenario''"
| "label Result = js ''Result''"
| "label GFA = js ''GFA''"
| "label DF = js ''DF''"
| "label IO = js ''IO''"
| "label Network = js ''Network''"
| "label Transport = js ''Transport''"

text \<open>
  \<^verbatim>\<open>n.match(new RegExp(`^${base}\\s+(\\d+)$`, 'i'))\<close>: the whole string is the base label
  up to letter case, then one or more white-space units, then one or more digits. The
  result is the first capture group, or \<open>None\<close> when the string does not match. The two
  classes are disjoint, so the greedy white-space run is the only possible split.
\<close>

definition regex_match :: "jsstring \<Rightarrow> jsstring \<Rightarrow> jsstring option" where
  "regex_match base n =
     (let pre = take (length base) n;
          rest = drop (length base) n;
          ws = takeWhile is_space rest;
          ds = dropWhile is_space rest
      in if map canonicalize pre = map canonicalize base \<and> ws \<noteq> [] \<and> ds \<noteq> []
            \<and> list_all is_digit ds
         then Some ds else None)"

text \<open>The loop \<^verbatim>\<open>while (used.has(i)) i++\<close>; the set \<open>used\<close> is kept as a duplicate-free list.\<close>

function while_used_has :: "nat list \<Rightarrow> nat \<Rightarrow> nat" where
  "while_used_has used i = (if i \<in> set used then while_used_has used (i + 1) else i)"
  by pat_completeness auto
termination
  by (relation "measure (\<lambda>(used, i). Suc (sum_list used) - i)")
     (auto dest: member_le_sum_list)

declare while_used_has.simps [simp del]

definition add_used :: "jsstring \<Rightarrow> nat list \<Rightarrow> jsstring \<Rightarrow> nat list" where
  "add_used base used n =
     (case regex_match base n of
        Some m1 \<Rightarrow> List.insert (parseInt10 m1) used
      | None \<Rightarrow> used)"

definition nextAutoName ::
  "('w \<Rightarrow> jsstring list \<times> 'w) \<Rightarrow> base_label \<Rightarrow> 'w \<Rightarrow> jsstring \<times> 'w" where
  "nextAutoName listExisting base w =
     (let (names, w') = listExisting w;
          used = foldl (add_used (label base)) [] names;
          i = while_used_has used 1
      in (label base @ js '' '' @ toString i, w'))"

text \<open>The name that \<open>nextAutoName\<close> computes when \<open>listExisting\<close> returns \<open>names\<close>.\<close>

definition name_for :: "jsstring list \<Rightarrow> base_label \<Rightarrow> jsstring" where
  "name_for names base = fst (nextAutoName (Pair names) base ())"

text \<open>
  The specification's reading of the pattern: a name matches \<^verbatim>\<open>^{base}\s+(k)$\<close>
  case-insensitively when it is the base label up to letter case, followed by a non-empty
  run of white space, followed by a non-empty run of digits that denotes \<open>k\<close>.
\<close>

definition matches_pattern :: "jsstring \<Rightarrow> jsstring \<Rightarrow> nat \<Rightarrow> bool" where
  "matches_pattern base n k \<longleftrightarrow>
     (\<exists>pre ws ds. n = pre @ ws @ ds
        \<and> map canonicalize pre = map canonicalize base
        \<and> ws \<noteq> [] \<and> list_all is_space ws
        \<and> ds \<noteq> [] \<and> list_all is_digit ds
        \<and> parseInt10 ds = k)"

definition numbers_in_use :: "base_label \<Rightarrow> jsstring list \<Rightarrow> nat set" where
  "numbers_in_use base names = {k. \<exists>n \<in> set names. matches_pattern (label base) n k}"

section \<open>JSON values\<close>

text \<open>
  The opaque payloads of the program (\<open>input_data\<close>, \<open>metrics\<close>, \<open>output_data\<close>, the data
  of a local result) and the values read back from local storage are JSON values. Object
  members are kept in insertion order.
\<close>

datatype json =
    JNull
  | JBool bool
  | JNum real
  | JStr jsstring
  | JArr "json list"
  | JObj "(jsstring \<times> json) list"

section \<open>The store (the tables, constraints and queries the program relies on)\<close>

type_synonym uuid = nat
type_synonym timestamp = nat

datatype tool_type = gfa | forecasting | network | inventory | transportation

text \<open>\<open>ModuleType\<close> of the source is \<open>ToolType\<close> without \<open>transportation\<close>.\<close>

type_synonym module_type = tool_type

datatype status = pending | running | completed | failed

record project =
  p_id :: uuid
  p_user_id :: uuid
  p_name :: jsstring
  p_description :: "jsstring option"
  p_tool_type :: tool_type
  p_input_data :: json
  p_results_data :: json
  p_size_mb :: nat
  p_created_at :: timestamp
  p_updated_at :: timestamp

record scenario =
  s_id :: uuid
  s_project_id :: uuid
  s_user_id :: uuid
  s_module_type :: module_type
  s_name :: jsstring
  s_description :: "jsstring option"
  s_status :: status
  s_created_at :: timestamp
  s_updated_at :: timestamp

record result =
  r_id :: uuid
  r_project_id :: uuid
  r_scenario_id :: uuid
  r_module_type :: jsstring
  r_name :: jsstring
  r_result_number :: nat
  r_metrics :: json
  r_output_data :: json
  r_version :: nat
  r_created_at :: timestamp

text \<open>
  The database: the three tables in row order, the generator of fresh row identifiers
  (\<^verbatim>\<open>gen_random_uuid()\<close>) and the clock behind \<^verbatim>\<open>now()\<close>.
\<close>

record store =
  projects :: "project list"
  scenarios :: "scenario list"
  scenario_outputs :: "result list"
  next_uuid :: uuid
  clock :: timestamp

text \<open>
  An error of the store carries its code: \<^verbatim>\<open>23505\<close> is PostgreSQL's unique violation,
  \<^verbatim>\<open>PGRST116\<close> is the answer of \<^verbatim>\<open>.single()\<close> to a result that is not exactly one row.
\<close>

datatype pg_error = PgError string

fun code :: "pg_error \<Rightarrow> string" where
  "code (PgError c) = c"

definition unique_violation :: pg_error where
  "unique_violation = PgError ''23505''"

type_synonym 'a response = "'a option \<times> pg_error option"

definition single_row :: "'r list \<Rightarrow> 'r response" where
  "single_row rows = (case rows of [r] \<Rightarrow> (Some r, None) | _ \<Rightarrow> (None, Some (PgError ''PGRST116'')))"

text \<open>
  \<^verbatim>\<open>.order(column, { ascending: false })\<close> and \<^verbatim>\<open>.range(from, to)\<close> (both ends included).

  The order of the rows of a table is the store's own: it is the order in which the store
  visits the rows when a query asks for none (\<^verbatim>\<open>.limit(1)\<close> without \<^verbatim>\<open>.order\<close>), and it
  decides the order of rows with equal keys in an ordered query (here they come in the
  reverse of the row order). New rows are added at the end, and the store may rearrange
  the rows at any time, for instance when it writes the new version of an updated row
  (the event \<open>Rearrange\<close> of the next section); every order of the rows can come about in
  this way, so that no query can rely on the row order.
\<close>

definition order_desc :: "('r \<Rightarrow> nat) \<Rightarrow> 'r list \<Rightarrow> 'r list" where
  "order_desc column rows = rev (sort_key column rows)"

definition range_rows :: "nat \<Rightarrow> int \<Rightarrow> 'r list \<Rightarrow> 'r list" where
  "range_rows from to rows = take (nat (to - int from + 1)) (drop from rows)"

text \<open>
  Inserts and updates are checked against the unique constraints of the migrations:
  \<open>unique_project_name_per_owner (user_id, name)\<close>,
  \<open>unique_scenario_name_per_project_module (project_id, module_type, name)\<close>,
  \<open>unique_result_name_per_scenario (scenario_id, name)\<close> and
  \<open>unique_scenario_result (scenario_id, result_number)\<close>. A row of \<open>scenario_outputs\<close> is
  checked as well against the type of its \<open>result_number\<close> column (\<^verbatim>\<open>INTEGER\<close>, at most
  2147483647; error \<^verbatim>\<open>22003\<close>) and against the foreign key of its \<open>project_id\<close> column
  (\<^verbatim>\<open>REFERENCES public.projects(id)\<close> in src/unnamed/part_006; error \<^verbatim>\<open>23503\<close>). The value
  is checked first, then the unique indexes as the row is written, and the foreign key at
  the end of the statement. A rejected statement leaves the database as it was. The
  sources show no other constraint of the three tables; access policies and transport
  failures are not part of this model.
\<close>

definition insert_project ::
  "uuid \<Rightarrow> jsstring \<Rightarrow> tool_type \<Rightarrow> jsstring option \<Rightarrow> json \<Rightarrow> json \<Rightarrow> nat \<Rightarrow> store
     \<Rightarrow> pg_error + project \<times> store" where
  "insert_project user_id name tool description input_data results_data size_mb s =
     (if list_ex (\<lambda>p. p_user_id p = user_id \<and> p_name p = name) (projects s)
      then Inl unique_violation
      else
        let row = \<lparr>p_id = next_uuid s, p_user_id = user_id, p_name = name,
                   p_description = description, p_tool_type = tool,
                   p_input_data = input_data, p_results_data = results_data,
                   p_size_mb = size_mb, p_created_at = clock s, p_updated_at = clock s\<rparr>
        in Inr (row, s\<lparr>projects := projects s @ [row], next_uuid := Suc (next_uuid s),
                          clock := Suc (clock s)\<rparr>))"

definition insert_scenario ::
  "uuid \<Rightarrow> uuid \<Rightarrow> module_type \<Rightarrow> jsstring \<Rightarrow> jsstring option \<Rightarrow> status \<Rightarrow> store
     \<Rightarrow> pg_error + scenario \<times> store" where
  "insert_scenario project_id user_id mtype name description st s =
     (if list_ex (\<lambda>c. s_project_id c = project_id \<and> s_module_type c = mtype \<and> s_name c = name)
           (scenarios s)
      then Inl unique_violation
      else
        let row = \<lparr>s_id = next_uuid s, s_project_id = project_id, s_user_id = user_id,
                   s_module_type = mtype, s_name = name, s_description = description,
                   s_status = st, s_created_at = clock s, s_updated_at = clock s\<rparr>
        in Inr (row, s\<lparr>scenarios := scenarios s @ [row], next_uuid := Suc (next_uuid s),
                          clock := Suc (clock s)\<rparr>))"

definition insert_output ::
  "uuid \<Rightarrow> uuid \<Rightarrow> jsstring \<Rightarrow> jsstring \<Rightarrow> nat \<Rightarrow> json \<Rightarrow> json \<Rightarrow> nat \<Rightarrow> store
     \<Rightarrow> pg_error + result \<times> store" where
  "insert_output project_id scenario_id mtype name result_number metrics output_data version s =
     (if 2147483647 < result_number
      then Inl (PgError ''22003'')
      else if list_ex (\<lambda>r. r_scenario_id r = scenario_id
                      \<and> (r_name r = name \<or> r_result_number r = result_number))
           (scenario_outputs s)
      then Inl unique_violation
      else if \<not> list_ex (\<lambda>p. p_id p = project_id) (projects s)
      then Inl (PgError ''23503'')
      else
        let row = \<lparr>r_id = next_uuid s, r_project_id = project_id, r_scenario_id = scenario_id,
                   r_module_type = mtype, r_name = name, r_result_number = result_number,
                   r_metrics = metrics, r_output_data = output_data, r_version = version,
                   r_created_at = clock s\<rparr>
        in Inr (row, s\<lparr>scenario_outputs := scenario_outputs s @ [row],
                          next_uuid := Suc (next_uuid s), clock := Suc (clock s)\<rparr>))"

text \<open>
  \<^verbatim>\<open>update({ name }).eq(...)\<close>: the rows selected by \<open>target\<close> are renamed, and no other
  column is written; the statement is rejected when a renamed row would share its unique
  key with another row.
\<close>

definition update_project_name ::
  "(project \<Rightarrow> bool) \<Rightarrow> jsstring \<Rightarrow> store \<Rightarrow> pg_error option \<times> store" where
  "update_project_name target name s =
     (if list_ex (\<lambda>p. target p \<and>
            list_ex (\<lambda>q. p_id q \<noteq> p_id p \<and> p_user_id q = p_user_id p \<and> p_name q = name)
              (projects s)) (projects s)
      then (Some unique_violation, s)
      else (None, s\<lparr>projects :=
              map (\<lambda>p. if target p then p\<lparr>p_name := name\<rparr> else p) (projects s)\<rparr>))"



definition delete_output :: "uuid \<Rightarrow> store \<Rightarrow> store" where
  "delete_output rid s =
     s\<lparr>scenario_outputs := filter (\<lambda>r. r_id r \<noteq> rid) (scenario_outputs s)\<rparr>"



section \<open>A client of the store, and the other clients\<close>

text \<open>
  Every call of the client is one request to the store. Other clients may be served
  between two of its requests: \<open>concurrent\<close> holds, for each coming request of this
  client, the requests of the others that the store serves first. Among them is the
  store's own rearranging of its rows, \<open>Rearrange rank\<close>, which puts the rows of every table
  in the order of the rank of their identifiers. The client's own requests are recorded in
  \<open>calls\<close>.
\<close>

datatype table = projects_table | scenarios_table | scenario_outputs_table

datatype call =
    SelectFrom table
  | InsertInto table jsstring "nat option"
  | UpdateIn table uuid jsstring

datatype request =
    CreateProject uuid jsstring tool_type
  | CreateScenario uuid uuid module_type jsstring
  | CreateOutput uuid uuid jsstring jsstring nat
  | RemoveOutput uuid
  | Rearrange "uuid \<Rightarrow> nat"

record world =
  db :: store
  concurrent :: "request list list"
  calls :: "call list"

fun serve :: "store \<Rightarrow> request \<Rightarrow> store" where
  "serve s (CreateProject user_id name tool) =
     (case insert_project user_id name tool None (JObj []) (JObj []) 0 s of
        Inl e \<Rightarrow> s | Inr (row, s') \<Rightarrow> s')"
| "serve s (CreateScenario project_id user_id mtype name) =
     (case insert_scenario project_id user_id mtype name None pending s of
        Inl e \<Rightarrow> s | Inr (row, s') \<Rightarrow> s')"
| "serve s (CreateOutput project_id scenario_id mtype name number) =
     (case insert_output project_id scenario_id mtype name number (JObj []) JNull 1 s of
        Inl e \<Rightarrow> s | Inr (row, s') \<Rightarrow> s')"
| "serve s (RemoveOutput rid) = delete_output rid s"
| "serve s (Rearrange rank) =
     s\<lparr>projects := sort_key (\<lambda>p. rank (p_id p)) (projects s),
       scenarios := sort_key (\<lambda>c. rank (s_id c)) (scenarios s),
       scenario_outputs := sort_key (\<lambda>r. rank (r_id r)) (scenario_outputs s)\<rparr>"

definition enter :: "call \<Rightarrow> world \<Rightarrow> world" where
  "enter c w =
     (case concurrent w of
        [] \<Rightarrow> w\<lparr>calls := calls w @ [c]\<rparr>
      | batch # rest \<Rightarrow>
          w\<lparr>db := foldl serve (db w) batch, concurrent := rest, calls := calls w @ [c]\<rparr>)"

definition select_rows :: "table \<Rightarrow> (store \<Rightarrow> 'r list) \<Rightarrow> world \<Rightarrow> 'r list \<times> world" where
  "select_rows t rows w = (let w' = enter (SelectFrom t) w in (rows (db w'), w'))"

definition insert_row ::
  "call \<Rightarrow> (store \<Rightarrow> pg_error + 'r \<times> store) \<Rightarrow> world \<Rightarrow> 'r response \<times> world" where
  "insert_row c ins w =
     (let w' = enter c w in
      case ins (db w') of
        Inl e \<Rightarrow> ((None, Some e), w')
      | Inr (row, s') \<Rightarrow> ((Some row, None), w'\<lparr>db := s'\<rparr>))"

definition update_rows ::
  "call \<Rightarrow> (store \<Rightarrow> pg_error option \<times> store) \<Rightarrow> world \<Rightarrow> pg_error option \<times> world" where
  "update_rows c upd w =
     (let w' = enter c w; (e, s') = upd (db w') in (e, w'\<lparr>db := s'\<rparr>))"

section \<open>Projects (the project data layer, in two revisions)\<close>

text \<open>
  The sources hold two revisions of the project data layer: one in
  src/lib/data/projects.ts (lines 1 to 176) and one that follows the auto-naming utility
  in src/lib/naming.ts (lines 31 to 213). They differ in \<open>ensureProject\<close> only.
\<close>

definition getModulePrefix :: "tool_type \<Rightarrow> base_label" where
  "getModulePrefix toolType =
     (case toolType of
        gfa \<Rightarrow> GFA
      | forecasting \<Rightarrow> DF
      | inventory \<Rightarrow> IO
      | network \<Rightarrow> Network
      | transportation \<Rightarrow> Transport)"

text \<open>
  \<open>ensureProject\<close> of the revision in src/lib/naming.ts (lines 74 to 141): it reuses a
  project of the user and the tool (\<^verbatim>\<open>.limit(1)\<close> without an order: the one that comes
  first in the store's row order, "not most recent, just any"), names a new one with the
  module prefix over the names of that module, and after a unique violation fetches
  again. A thrown error is caught by the function, which then returns null (\<open>None\<close>).
\<close>

definition ensureProject :: "uuid \<Rightarrow> tool_type \<Rightarrow> world \<Rightarrow> project option \<times> world" where
  "ensureProject userId toolType w0 =
     (let (rows, w1) = select_rows projects_table projects w0;
          (existing, fetchError) =
             single_row (take 1
               (filter (\<lambda>p. p_user_id p = userId \<and> p_tool_type p = toolType) rows))
      in if existing \<noteq> None \<and> fetchError = None then (existing, w1)
         else
           let prefix = getModulePrefix toolType;
               (name, w2) =
                 nextAutoName
                   (\<lambda>w. let (data, w') = select_rows projects_table projects w
                        in (map p_name
                              (filter (\<lambda>p. p_user_id p = userId \<and> p_tool_type p = toolType)
                                 data), w'))
                   prefix w1;
               ((newProject, createError), w3) =
                 insert_row (InsertInto projects_table name None)
                   (insert_project userId name toolType None (JObj []) (JObj []) 0) w2
           in case createError of
                Some err \<Rightarrow>
                  if code err = ''23505'' then
                    let (rows', w4) = select_rows projects_table projects w3;
                        (existingAfterRace, fetchError') =
                           single_row (take 1
                             (filter (\<lambda>p. p_user_id p = userId \<and> p_tool_type p = toolType)
                                rows'))
                    in if existingAfterRace \<noteq> None then (existingAfterRace, w4)
                       else (None, w4)
                  else (None, w3)
              | None \<Rightarrow> (newProject, w3))"

text \<open>
  \<open>ensureProject\<close> of the revision in src/lib/data/projects.ts (lines 23 to 104): it reuses
  the most recently updated project, names a new one \<open>Project N\<close> over all names of the
  user, and after a unique violation computes the name again and inserts a second time.
\<close>

definition ensureProject_legacy ::
  "uuid \<Rightarrow> tool_type \<Rightarrow> world \<Rightarrow> project option \<times> world" where
  "ensureProject_legacy userId toolType w0 =
     (let (rows, w1) = select_rows projects_table projects w0;
          (existing, fetchError) =
             single_row (take 1 (order_desc p_updated_at
               (filter (\<lambda>p. p_user_id p = userId \<and> p_tool_type p = toolType) rows)))
      in if existing \<noteq> None \<and> fetchError = None then (existing, w1)
         else
           let listExisting =
                 (\<lambda>w. let (data, w') = select_rows projects_table projects w
                      in (map p_name (filter (\<lambda>p. p_user_id p = userId) data), w'));
               (name, w2) = nextAutoName listExisting Project w1;
               ((newProject, createError), w3) =
                 insert_row (InsertInto projects_table name None)
                   (insert_project userId name toolType None (JObj []) (JObj []) 0) w2
           in case createError of
                Some err \<Rightarrow>
                  if code err = ''23505'' then
                    let (retryName, w4) = nextAutoName listExisting Project w3;
                        ((retryProject, retryError), w5) =
                          insert_row (InsertInto projects_table retryName None)
                            (insert_project userId retryName toolType None (JObj []) (JObj []) 0)
                            w4
                    in if retryError \<noteq> None then (None, w5) else (retryProject, w5)
                  else (None, w3)
              | None \<Rightarrow> (newProject, w3))"

text \<open>The result of a rename: \<^verbatim>\<open>{ success: boolean; error?: string }\<close>.\<close>

record outcome =
  success :: bool
  error :: "jsstring option"

definition quoted :: "jsstring \<Rightarrow> jsstring" where
  "quoted name = [39] @ name @ [39]"

text \<open>The three failures with the message that the name is taken, and the plain success.\<close>

definition project_exists :: "jsstring \<Rightarrow> outcome" where
  "project_exists newName =
     \<lparr>success = False,
      error = Some (js ''A project named '' @ quoted newName @
                js '' already exists. Please choose a different name.'')\<rparr>"



definition succeeded :: outcome where
  "succeeded = \<lparr>success = True, error = None\<rparr>"

definition renameProject :: "uuid \<Rightarrow> jsstring \<Rightarrow> uuid \<Rightarrow> world \<Rightarrow> outcome \<times> world" where
  "renameProject rid newName userId w0 =
     (let (rows, w1) = select_rows projects_table projects w0;
          (existing, checkError) =
             single_row (filter (\<lambda>p. p_user_id p = userId \<and> p_name p = newName \<and> p_id p \<noteq> rid)
                           rows)
      in if existing \<noteq> None
         then (project_exists newName, w1)
         else
           let (err, w2) =
                 update_rows (UpdateIn projects_table rid newName)
                   (update_project_name (\<lambda>p. p_id p = rid \<and> p_user_id p = userId) newName) w1
           in case err of
                Some e \<Rightarrow>
                  if code e = ''23505''
                  then (project_exists newName, w2)
                  else (\<lparr>success = False, error = Some (js ''Failed to rename project'')\<rparr>, w2)
              | None \<Rightarrow> (succeeded, w2))"

section \<open>Scenarios (the scenario data layer)\<close>

text \<open>
  The module \<open>lib/data/scenarios\<close>, which follows the project data layer in
  src/lib/data/projects.ts (lines 177 to 358).
\<close>

definition ensureScenario ::
  "uuid \<Rightarrow> uuid \<Rightarrow> module_type \<Rightarrow> world \<Rightarrow> scenario option \<times> world" where
  "ensureScenario projectId userId moduleType w0 =
     (let (rows, w1) = select_rows scenarios_table scenarios w0;
          (existing, fetchError) =
             single_row (take 1 (order_desc s_updated_at
               (filter (\<lambda>c. s_project_id c = projectId \<and> s_module_type c = moduleType) rows)))
      in if existing \<noteq> None \<and> fetchError = None then (existing, w1)
         else
           let listExisting =
                 (\<lambda>w. let (data, w') = select_rows scenarios_table scenarios w
                      in (map s_name
                            (filter (\<lambda>c. s_project_id c = projectId \<and> s_module_type c = moduleType)
                               data), w'));
               (name, w2) = nextAutoName listExisting Scenario w1;
               ((newScenario, createError), w3) =
                 insert_row (InsertInto scenarios_table name None)
                   (insert_scenario projectId userId moduleType name None pending) w2
           in case createError of
                Some err \<Rightarrow>
                  if code err = ''23505'' then
                    let (retryName, w4) = nextAutoName listExisting Scenario w3;
                        ((retryScenario, retryError), w5) =
                          insert_row (InsertInto scenarios_table retryName None)
                            (insert_scenario projectId userId moduleType retryName None pending)
                            w4
                    in if retryError \<noteq> None then (None, w5) else (retryScenario, w5)
                  else (None, w3)
              | None \<Rightarrow> (newScenario, w3))"


section \<open>Results (src/lib/data/results.ts)\<close>

record create_params =
  cp_projectId :: uuid
  cp_scenarioId :: uuid
  cp_moduleType :: jsstring
  cp_metrics :: json
  cp_payload :: json

text \<open>The columns \<^verbatim>\<open>id, name, created_at\<close> that \<open>createResult\<close> selects from the new row.\<close>

definition created :: "result option \<Rightarrow> (uuid \<times> jsstring \<times> timestamp) option" where
  "created data = map_option (\<lambda>row. (r_id row, r_name row, r_created_at row)) data"

definition createResult ::
  "create_params \<Rightarrow> world \<Rightarrow> (uuid \<times> jsstring \<times> timestamp) option \<times> world" where
  "createResult params w0 =
     (let (rows, w1) = select_rows scenario_outputs_table scenario_outputs w0;
          existingResults =
             take 1 (order_desc r_result_number
               (filter (\<lambda>r. r_scenario_id r = cp_scenarioId params) rows));
          nextResultNumber =
             (case existingResults of [] \<Rightarrow> 1 | r # rs \<Rightarrow> r_result_number r + 1);
          listExisting =
             (\<lambda>w. let (data, w') = select_rows scenario_outputs_table scenario_outputs w
                  in (map r_name (filter (\<lambda>r. r_scenario_id r = cp_scenarioId params) data), w'));
          (name, w2) = nextAutoName listExisting Result w1;
          ((newResult, createError), w3) =
             insert_row (InsertInto scenario_outputs_table name (Some nextResultNumber))
               (insert_output (cp_projectId params) (cp_scenarioId params) (cp_moduleType params) name
                  nextResultNumber (cp_metrics params) (cp_payload params) 1) w2
      in case createError of
           Some err \<Rightarrow>
             if code err = ''23505'' then
               let (retryName, w4) = nextAutoName listExisting Result w3;
                   ((retryResult, retryError), w5) =
                     insert_row (InsertInto scenario_outputs_table retryName (Some nextResultNumber))
                       (insert_output (cp_projectId params) (cp_scenarioId params) (cp_moduleType params)
                          retryName nextResultNumber (cp_metrics params) (cp_payload params) 1) w4
               in if retryError \<noteq> None then (None, w5) else (created retryResult, w5)
             else (None, w3)
         | None \<Rightarrow> (created newResult, w3))"

text \<open>
  The number that \<open>createResult\<close> computes when \<open>rs\<close> are the rows of the scenario:
  \<^verbatim>\<open>existingResults[0].result_number + 1\<close> for the first row in descending order, or 1.
\<close>

definition next_number :: "result list \<Rightarrow> nat" where
  "next_number rs = (case take 1 (order_desc r_result_number rs) of
                       [] \<Rightarrow> 1 | r # rest \<Rightarrow> r_result_number r + 1)"

record list_options =
  opt_limit :: "nat option"
  opt_offset :: "nat option"

definition listResults :: "uuid \<Rightarrow> list_options \<Rightarrow> world \<Rightarrow> result list \<times> world" where
  "listResults scenario_id options w0 =
     (let limit = (case opt_limit options of None \<Rightarrow> 10 | Some l \<Rightarrow> l);
          offset = (case opt_offset options of None \<Rightarrow> 0 | Some off \<Rightarrow> off);
          (rows, w1) = select_rows scenario_outputs_table scenario_outputs w0
      in (range_rows offset (int offset + int limit - 1)
            (order_desc r_created_at (filter (\<lambda>r. r_scenario_id r = scenario_id) rows)), w1))"


section \<open>The context providers\<close>

text \<open>
  The scenario and project contexts (src/unnamed/part_002, lines 57 to 76 and 321 to 358).
  The providers keep the signed-in user (\<open>None\<close> when nobody is signed in) and their React
  state, and call the data layer.
\<close>

record scenario_state =
  scenarios_state :: "scenario list"
  currentScenario :: "scenario option"

definition ScenarioProvider_ensureScenario ::
  "uuid option \<Rightarrow> uuid \<Rightarrow> module_type \<Rightarrow> scenario_state \<times> world
     \<Rightarrow> scenario option \<times> scenario_state \<times> world" where
  "ScenarioProvider_ensureScenario user projectId moduleType sw =
     (case user of
        None \<Rightarrow> (None, sw)
      | Some user_id \<Rightarrow>
          let (st, w) = sw;
              (scenario, w') = ensureScenario projectId user_id moduleType w
          in case scenario of
               Some sc \<Rightarrow>
                 let st1 = (if list_ex (\<lambda>x. s_id x = s_id sc) (scenarios_state st) then st
                            else st\<lparr>scenarios_state := sc # scenarios_state st\<rparr>)
                 in (Some sc, st1\<lparr>currentScenario := Some sc\<rparr>, w')
             | None \<Rightarrow> (None, st, w'))"

record project_state =
  projects_state :: "project list"
  loading :: bool

text \<open>
  \<open>fetchProjects\<close> selects all projects the signed-in user may read, newest first; the
  access policy of the table shows a user their own rows.
\<close>

definition fetchProjects :: "uuid option \<Rightarrow> project_state \<times> world \<Rightarrow> project_state \<times> world" where
  "fetchProjects user sw =
     (case user of
        None \<Rightarrow> (\<lparr>projects_state = [], loading = False\<rparr>, snd sw)
      | Some user_id \<Rightarrow>
          let (rows, w') = select_rows projects_table projects (snd sw)
          in (\<lparr>projects_state = order_desc p_created_at (filter (\<lambda>p. p_user_id p = user_id) rows),
               loading = False\<rparr>, w'))"

definition ProjectProvider_ensureProject ::
  "(uuid \<Rightarrow> tool_type \<Rightarrow> world \<Rightarrow> project option \<times> world) \<Rightarrow> uuid option \<Rightarrow> tool_type
     \<Rightarrow> project_state \<times> world \<Rightarrow> project option \<times> project_state \<times> world" where
  "ProjectProvider_ensureProject ensureProjectData user toolType sw =
     (case user of
        None \<Rightarrow> (None, sw)
      | Some user_id \<Rightarrow>
          let (st, w) = sw;
              (project, w') = ensureProjectData user_id toolType w
          in case project of
               Some p \<Rightarrow> (Some p, fetchProjects user (st, w'))
             | None \<Rightarrow> (None, st, w'))"

section \<open>Observing a workflow\<close>

text \<open>The requests a workflow sent to the store, from the worlds before and after it.\<close>

definition requests_made :: "world \<Rightarrow> world \<Rightarrow> call list" where
  "requests_made w w' = drop (length (calls w)) (calls w')"

section \<open>The local result history (src/utils/resultVersioning.ts)\<close>

text \<open>
  Local storage maps keys to strings. The program reads a stored string only through
  \<^verbatim>\<open>JSON.parse\<close>, so a stored string is represented by what parsing it gives: no value
  (the empty string and every other text that is not JSON make \<^verbatim>\<open>JSON.parse\<close> throw), or
  the JSON value it denotes. \<^verbatim>\<open>JSON.stringify\<close> of a JSON value stores a string that
  denotes that value.
\<close>

datatype item = Unparsable | Parsed json

type_synonym localStorage = "jsstring \<rightharpoonup> item"

text \<open>
  A JavaScript value that the functions return: \<^verbatim>\<open>undefined\<close>, or a JSON value (\<open>JNull\<close>
  is \<^verbatim>\<open>null\<close>).
\<close>

datatype jsval = Undefined | Value json

datatype js_error = SyntaxError | TypeError

definition truthy :: "json \<Rightarrow> bool" where
  "truthy v =
     (case v of
        JNull \<Rightarrow> False
      | JBool b \<Rightarrow> b
      | JNum x \<Rightarrow> x \<noteq> 0
      | JStr s \<Rightarrow> s \<noteq> []
      | JArr xs \<Rightarrow> True
      | JObj kvs \<Rightarrow> True)"

text \<open>
  \<^verbatim>\<open>parsed.results\<close>: reading the property of \<^verbatim>\<open>null\<close> throws a TypeError; an object
  gives its member or \<^verbatim>\<open>undefined\<close>; numbers, booleans, strings and arrays have no such
  property.
\<close>

definition results_of :: "json \<Rightarrow> js_error + jsval" where
  "results_of parsed =
     (case parsed of
        JNull \<Rightarrow> Inl TypeError
      | JObj kvs \<Rightarrow>
          (case map_of kvs (js ''results'') of None \<Rightarrow> Inr Undefined | Some v \<Rightarrow> Inr (Value v))
      | _ \<Rightarrow> Inr Undefined)"

definition storage_key :: "jsstring \<Rightarrow> jsstring" where
  "storage_key scenario_id = js ''scenario_results_'' @ scenario_id"

text \<open>
  The body of the \<^verbatim>\<open>try\<close> block of \<open>getScenarioResults\<close>:
  \<^verbatim>\<open>const parsed = JSON.parse(stored); return parsed.results || [];\<close>
\<close>

definition try_parse_results :: "item \<Rightarrow> js_error + json" where
  "try_parse_results stored =
     (case stored of
        Unparsable \<Rightarrow> Inl SyntaxError
      | Parsed parsed \<Rightarrow>
          (case results_of parsed of
             Inl e \<Rightarrow> Inl e
           | Inr Undefined \<Rightarrow> Inr (JArr [])
           | Inr (Value v) \<Rightarrow> Inr (if truthy v then v else JArr [])))"

text \<open>
  \<open>getScenarioResults\<close>: the empty list when nothing is stored or when the body throws,
  and otherwise whatever JSON value the body returns. (An empty stored string returns
  early in the source; here it is \<open>Unparsable\<close>, with the same result.)
\<close>

definition getScenarioResults :: "localStorage \<Rightarrow> jsstring \<Rightarrow> json" where
  "getScenarioResults ls scenario_id =
     (case ls (storage_key scenario_id) of
        None \<Rightarrow> JArr []
      | Some stored \<Rightarrow>
          (case try_parse_results stored of
             Inl e \<Rightarrow> JArr []
           | Inr v \<Rightarrow> v))"

text \<open>
  Spreading a string iterates over its code points: a high surrogate followed by a low
  surrogate is one element.
\<close>

fun code_points :: "jsstring \<Rightarrow> jsstring list" where
  "code_points [] = []"
| "code_points [u] = [[u]]"
| "code_points (u # v # us) =
     (if 55296 \<le> u \<and> u \<le> 56319 \<and> 56320 \<le> v \<and> v \<le> 57343
      then [u, v] # code_points us
      else [u] # code_points (v # us))"

text \<open>
  \<open>addScenarioResult\<close>, with the time stamp of \<^verbatim>\<open>new Date().toISOString()\<close> as an argument.
  The spread \<^verbatim>\<open>[...existing, newResult]\<close> throws a TypeError when \<open>existing\<close> is a number,
  \<^verbatim>\<open>true\<close> or an object; the exception leaves the function before anything is stored.
\<close>

definition newResult :: "nat \<Rightarrow> jsstring \<Rightarrow> json \<Rightarrow> json" where
  "newResult resultNumber now resultData =
     JObj [(js ''resultNumber'', JNum (of_nat resultNumber)),
           (js ''timestamp'', JStr now),
           (js ''data'', resultData)]"

definition updated :: "jsstring \<Rightarrow> json list \<Rightarrow> json" where
  "updated scenario_id results =
     JObj [(js ''scenarioId'', JStr scenario_id), (js ''results'', JArr results)]"

definition addScenarioResult ::
  "jsstring \<Rightarrow> json \<Rightarrow> jsstring \<Rightarrow> localStorage \<Rightarrow> js_error + nat \<times> localStorage" where
  "addScenarioResult scenario_id resultData now ls =
     (case getScenarioResults ls scenario_id of
        JArr xs \<Rightarrow>
          let resultNumber = length xs + 1
          in Inr (resultNumber,
                  ls(storage_key scenario_id \<mapsto>
                       Parsed (updated scenario_id (xs @ [newResult resultNumber now resultData]))))
      | JStr s \<Rightarrow>
          let resultNumber = length s + 1
          in Inr (resultNumber,
                  ls(storage_key scenario_id \<mapsto>
                       Parsed (updated scenario_id
                          (map JStr (code_points s) @ [newResult resultNumber now resultData]))))
      | _ \<Rightarrow> Inl TypeError)"

text \<open>
  \<open>getLatestResult\<close>. On an array it is \<^verbatim>\<open>null\<close> or the last element; on a string the last
  code unit; a number and \<^verbatim>\<open>true\<close> have no \<^verbatim>\<open>length\<close>, so the index is \<^verbatim>\<open>NaN\<close> and the
  result \<^verbatim>\<open>undefined\<close>. When \<open>results\<close> is an object, the answer depends on JavaScript's
  conversion of its \<^verbatim>\<open>length\<close> member to a property key, which is not described here: the
  model gives \<open>None\<close> for that case.
\<close>

definition getLatestResult :: "localStorage \<Rightarrow> jsstring \<Rightarrow> jsval option" where
  "getLatestResult ls scenario_id =
     (case getScenarioResults ls scenario_id of
        JArr xs \<Rightarrow> if length xs = 0 then Some (Value JNull) else Some (Value (last xs))
      | JStr s \<Rightarrow> if length s = 0 then Some (Value JNull) else Some (Value (JStr [last s]))
      | JObj kvs \<Rightarrow> None
      | _ \<Rightarrow> Some Undefined)"

text \<open>The specification's "lacks a results field": anything but an object with that member.\<close>

definition lacks_results :: "json \<Rightarrow> bool" where
  "lacks_results parsed =
     (case parsed of JObj kvs \<Rightarrow> map_of kvs (js ''results'') = None | _ \<Rightarrow> True)"

definition clearScenarioResults :: "jsstring \<Rightarrow> localStorage \<Rightarrow> localStorage" where
  "clearScenarioResults scenario_id ls = ls(storage_key scenario_id := None)"

text \<open>
  A sequence of calls of the module, each on its scenario, run from left to right; the
  numbers that the calls of \<open>addScenarioResult\<close> return are collected in order. An exception
  ends the run.
\<close>

datatype local_call = Add jsstring json jsstring | Clear jsstring

fun scenario_of :: "local_call \<Rightarrow> jsstring" where
  "scenario_of (Add scenario_id resultData now) = scenario_id"
| "scenario_of (Clear scenario_id) = scenario_id"

fun run_calls :: "local_call list \<Rightarrow> localStorage \<Rightarrow> js_error + nat list \<times> localStorage" where
  "run_calls [] ls = Inr ([], ls)"
| "run_calls (Add scenario_id resultData now # cs) ls =
     (case addScenarioResult scenario_id resultData now ls of
        Inl e \<Rightarrow> Inl e
      | Inr (n, ls') \<Rightarrow>
          (case run_calls cs ls' of
             Inl e \<Rightarrow> Inl e
           | Inr (ns, ls'') \<Rightarrow> Inr (n # ns, ls'')))"
| "run_calls (Clear scenario_id # cs) ls = run_calls cs (clearScenarioResults scenario_id ls)"

subsection \<open>The specification's local variant\<close>

text \<open>
  The specification describes the local variant as one append-only list per scenario:
  adding a result appends an entry and returns the length of the list plus one, and
  clearing empties the list. \<open>spec_calls\<close> runs a sequence of calls on such lists.
\<close>

type_synonym histories = "jsstring \<Rightarrow> json list"

fun spec_calls :: "local_call list \<Rightarrow> histories \<Rightarrow> nat list \<times> histories" where
  "spec_calls [] h = ([], h)"
| "spec_calls (Add scenario_id resultData now # cs) h =
     (let n = length (h scenario_id) + 1;
          (ns, h') = spec_calls cs (h(scenario_id := h scenario_id @ [newResult n now resultData]))
      in (n # ns, h'))"
| "spec_calls (Clear scenario_id # cs) h = spec_calls cs (h(scenario_id := []))"

text \<open>The specification's \<open>getLatest\<close>: the last entry of the list, or null.\<close>

definition spec_latest :: "json list \<Rightarrow> json" where
  "spec_latest xs = (if xs = [] then JNull else last xs)"

section \<open>Initial states\<close>

text \<open>A client that starts on database \<open>s\<close> while the other clients make the requests \<open>others\<close>.\<close>

definition client :: "store \<Rightarrow> request list list \<Rightarrow> world" where
  "client s others = \<lparr>db = s, concurrent = others, calls = []\<rparr>"

text \<open>The world once the result row \<open>rid\<close> has been deleted from the store.\<close>

definition after_delete :: "uuid \<Rightarrow> world \<Rightarrow> world" where
  "after_delete rid w = w\<lparr>db := delete_output rid (db w)\<rparr>"

text \<open>
  A database with one project of user 7, the forecasting project 1 named \<open>DF 1\<close>, and its
  scenario 2.
\<close>

definition one_scenario :: store where
  "one_scenario =
     \<lparr>projects =
        [\<lparr>p_id = 1, p_user_id = 7, p_name = js ''DF 1'', p_description = None,
          p_tool_type = forecasting, p_input_data = JObj [], p_results_data = JObj [],
          p_size_mb = 0, p_created_at = 0, p_updated_at = 0\<rparr>],
      scenarios =
        [\<lparr>s_id = 2, s_project_id = 1, s_user_id = 7, s_module_type = forecasting,
          s_name = js ''Scenario 1'', s_description = None, s_status = pending,
          s_created_at = 1, s_updated_at = 1\<rparr>],
      scenario_outputs = [], next_uuid = 3, clock = 2\<rparr>"

text \<open>A request to create a result for scenario 2 of project 1.\<close>

definition params0 :: create_params where
  "params0 = \<lparr>cp_projectId = 1, cp_scenarioId = 2, cp_moduleType = js ''forecasting'',
              cp_metrics = JObj [], cp_payload = JNull\<rparr>"

text \<open>The world after three results were created, one after the other, for that scenario.\<close>

definition three_results :: world where
  "three_results =
     snd (createResult params0 (snd (createResult params0 (snd (createResult params0
       (client one_scenario []))))))"

text \<open>
  A race on the scenario while it has no results: after this client has read the numbers
  and the names, and before its insert, another client creates \<open>Result 1\<close> with number 1.
\<close>

definition race_on_result :: world where
  "race_on_result =
     client one_scenario [[], [], [CreateOutput 1 2 (js ''forecasting'') (js ''Result 1'') 1]]"

text \<open>
  Races on an empty scope (user 7 has no project for the tool \<open>gfa\<close>, and project 1 no
  scenario for the module \<open>gfa\<close>): between this client's reading of the names and its
  insert, another client creates the entity that this client is about to create.
\<close>

definition race_on_project :: world where
  "race_on_project = client one_scenario [[], [], [CreateProject 7 (js ''GFA 1'') gfa]]"

definition race_on_legacy_project :: world where
  "race_on_legacy_project = client one_scenario [[], [], [CreateProject 7 (js ''Project 1'') gfa]]"

definition race_on_scenario :: world where
  "race_on_scenario = client one_scenario [[], [], [CreateScenario 1 7 gfa (js ''Scenario 1'')]]"

text \<open>
  The world in which user 7, who has no project for the tool \<open>gfa\<close>, has renamed the
  forecasting project 1 to \<open>GFA 1\<close>.
\<close>

definition name_taken :: world where
  "name_taken = snd (renameProject 1 (js ''GFA 1'') 7 (client one_scenario []))"

text \<open>
  Result rows, and a database with twelve results of scenario 2, created one after the
  other, and one result of a second scenario 5.
\<close>

definition output_row :: "uuid \<Rightarrow> uuid \<Rightarrow> jsstring \<Rightarrow> nat \<Rightarrow> timestamp \<Rightarrow> result" where
  "output_row rid sid name number created_at =
     \<lparr>r_id = rid, r_project_id = 1, r_scenario_id = sid, r_module_type = js ''forecasting'',
      r_name = name, r_result_number = number, r_metrics = JObj [], r_output_data = JNull,
      r_version = 1, r_created_at = created_at\<rparr>"

definition numbered :: "nat \<Rightarrow> result" where
  "numbered n = output_row (10 + n) 2 (label Result @ [32] @ toString n) n (100 + n)"

definition twelve_results :: store where
  "twelve_results =
     one_scenario
       \<lparr>scenarios := scenarios one_scenario @
          [\<lparr>s_id = 5, s_project_id = 1, s_user_id = 7, s_module_type = gfa,
            s_name = js ''Scenario 1'', s_description = None, s_status = pending,
            s_created_at = 2, s_updated_at = 2\<rparr>],
        scenario_outputs :=
          map numbered [1, 2, 3, 4, 5, 6] @ [output_row 30 5 (js ''Result 1'') 1 106]
          @ map numbered [7, 8, 9, 10, 11, 12],
        next_uuid := 31, clock := 113\<rparr>"

text \<open>The store's rearranging of its rows that puts the rows with even identifiers first.\<close>

definition evens_first :: "uuid \<Rightarrow> nat" where
  "evens_first rid = rid mod 2"



text \<open>
  A local storage in which the entry of scenario \<open>s3\<close> holds a number in place of a list,
  and a sequence of calls on the scenarios \<open>s1\<close> and \<open>s2\<close>.
\<close>

definition sample_storage :: localStorage where
  "sample_storage = [storage_key (js ''s3'') \<mapsto> Parsed (JObj [(js ''results'', JNum 5)])]"

definition sample_calls :: "local_call list" where
  "sample_calls =
     [Add (js ''s1'') (JNum 10) (js ''t1''), Add (js ''s1'') (JNum 20) (js ''t2''),
      Add (js ''s2'') (JNum 30) (js ''t3''), Add (js ''s1'') (JNum 40) (js ''t4''),
      Clear (js ''s2''), Add (js ''s2'') (JNum 50) (js ''t5'')]"

section \<open>Properties of auto-naming\<close>

text \<open>The loop returns the least number from its start that is not in use.\<close>

lemma while_used_has_least:
  "while_used_has used i = (LEAST j. i \<le> j \<and> j \<notin> set used)"
proof (induction used i rule: while_used_has.induct)
  case (1 used i)
  show ?case
  proof (cases "i \<in> set used")
    case True
    then have "\<And>j. (i \<le> j \<and> j \<notin> set used) = (i + 1 \<le> j \<and> j \<notin> set used)"
      by (metis Suc_eq_plus1 Suc_leI le_neq_implies_less Suc_leD)
    with True 1 show ?thesis
      by (simp add: while_used_has.simps [of used i])
  next
    case False
    then have "(LEAST j. i \<le> j \<and> j \<notin> set used) = i"
      by (intro Least_equality) auto
    with False show ?thesis
      by (simp add: while_used_has.simps [of used i])
  qed
qed

lemma while_used_has_le:
  "while_used_has used i \<le> i + card {k \<in> set used. i \<le> k}"
proof (induction used i rule: while_used_has.induct)
  case (1 used i)
  show ?case
  proof (cases "i \<in> set used")
    case True
    have "{k \<in> set used. i \<le> k} = insert i {k \<in> set used. i + 1 \<le> k}"
      using True by auto
    then have "card {k \<in> set used. i \<le> k} = Suc (card {k \<in> set used. i + 1 \<le> k})"
      by simp
    with True 1 show ?thesis
      by (simp add: while_used_has.simps [of used i])
  next
    case False
    then show ?thesis
      by (simp add: while_used_has.simps [of used i])
  qed
qed

text \<open>The match computed from the source agrees with the specification's reading.\<close>

lemma regex_match_iff:
  "regex_match base n = Some ds \<longleftrightarrow>
     (\<exists>pre ws. n = pre @ ws @ ds \<and> map canonicalize pre = map canonicalize base
        \<and> ws \<noteq> [] \<and> list_all is_space ws \<and> ds \<noteq> [] \<and> list_all is_digit ds)"
  (is "?L = ?R")
proof
  assume ?L
  let ?pre = "take (length base) n" and ?rest = "drop (length base) n"
  from \<open>?L\<close> have m: "map canonicalize ?pre = map canonicalize base"
    and ws: "takeWhile is_space ?rest \<noteq> []"
    and ds: "ds = dropWhile is_space ?rest" "ds \<noteq> []" "list_all is_digit ds"
    by (auto simp: regex_match_def Let_def split: if_splits)
  have "n = ?pre @ takeWhile is_space ?rest @ ds"
    using ds(1) by simp
  moreover have "list_all is_space (takeWhile is_space ?rest)"
    by (simp add: list_all_iff) (meson set_takeWhileD)
  ultimately show ?R using m ws ds by blast
next
  assume ?R
  then obtain pre ws where n: "n = pre @ ws @ ds"
    and m: "map canonicalize pre = map canonicalize base"
    and ws: "ws \<noteq> []" "list_all is_space ws"
    and ds: "ds \<noteq> []" "list_all is_digit ds"
    by blast
  from m have len: "length pre = length base"
    by (metis length_map)
  from ds have "\<not> is_space (hd ds)"
    by (cases ds) (auto simp: is_digit_def is_space_def)
  with ds(1) have tw: "takeWhile is_space ds = []" "dropWhile is_space ds = ds"
    by (cases ds; simp)+
  have sp: "takeWhile is_space (ws @ ds) = ws" "dropWhile is_space (ws @ ds) = ds"
    using ws(2) tw by (simp_all add: list_all_iff takeWhile_append2 dropWhile_append2)
  have td: "take (length base) n = pre" "drop (length base) n = ws @ ds"
    using n len by simp_all
  show ?L
    unfolding regex_match_def Let_def td sp
    using m ws(1) ds by simp
qed


text \<open>The set \<open>used\<close> holds exactly the numbers of the matching names.\<close>

lemma set_foldl_add_used:
  "set (foldl (add_used base) acc names) =
     set acc \<union> {parseInt10 ds | n ds. n \<in> set names \<and> regex_match base n = Some ds}"
proof (induction names arbitrary: acc)
  case Nil
  show ?case by simp
next
  case (Cons n names)
  have "set (add_used base acc n) =
          set acc \<union> {parseInt10 ds | ds. regex_match base n = Some ds}"
    by (simp add: add_used_def split: option.split)
  then show ?case
    unfolding foldl_Cons Cons.IH by auto
qed

lemma length_foldl_add_used:
  "length (foldl (add_used base) acc names) \<le> length acc + length names"
proof (induction names arbitrary: acc)
  case Nil
  show ?case by simp
next
  case (Cons n names)
  have "length (add_used base acc n) \<le> Suc (length acc)"
    by (simp add: add_used_def List.insert_def split: option.split)
  with Cons.IH [of "add_used base acc n"] show ?case by simp
qed

text \<open>The counter of the loop never exceeds the number of names plus one.\<close>

lemma nextAutoName_counter_bound:
  "while_used_has (foldl (add_used base) [] names) 1 \<le> 1 + length names"
proof -
  let ?used = "foldl (add_used base) [] names"
  have "card {k \<in> set ?used. 1 \<le> k} \<le> card (set ?used)"
    by (rule card_mono) auto
  also have "\<dots> \<le> length ?used"
    by (rule card_length)
  also have "\<dots> \<le> length names"
    using length_foldl_add_used [of base "[]" names] by simp
  finally show ?thesis
    using while_used_has_le [of ?used 1] by simp
qed

lemma used_eq_numbers_in_use:
  "set (foldl (add_used (label base)) [] names) = numbers_in_use base names"
  by (auto simp: set_foldl_add_used numbers_in_use_def matches_pattern_def regex_match_iff)

text \<open>
  The generated name matches the pattern with its own number, so it is never among the
  names it was computed from.
\<close>

lemma while_used_has_notin: "while_used_has used i \<notin> set used"
  by (induction used i rule: while_used_has.induct)
     (simp add: while_used_has.simps)

lemma toString_nonempty: "toString n \<noteq> []"
  by (subst toString.simps) simp

lemma toString_digits: "list_all is_digit (toString n)"
proof (induction n rule: toString.induct)
  case (1 n)
  have d: "is_digit (48 + n mod 10)" "n < 10 \<Longrightarrow> is_digit (48 + n)"
    by (simp_all add: is_digit_def)
  show ?case
  proof (cases "n < 10")
    case True
    with d show ?thesis
      by (subst toString.simps) simp
  next
    case False
    with 1 d show ?thesis
      by (subst toString.simps) simp
  qed
qed

lemma parseInt10_toString: "parseInt10 (toString n) = n"
proof (induction n rule: toString.induct)
  case (1 n)
  show ?case
  proof (cases "n < 10")
    case True
    then show ?thesis
      by (subst toString.simps) (simp add: parseInt10_def)
  next
    case False
    with 1 have "parseInt10 (toString (n div 10)) = n div 10" by simp
    with False show ?thesis
      by (subst toString.simps) (simp add: parseInt10_def)
  qed
qed

lemma regex_match_generated:
  "regex_match (label base) (label base @ js '' '' @ toString i) = Some (toString i)"
  unfolding regex_match_iff
  by (rule exI [of _ "label base"], rule exI [of _ "js '' ''"])
     (simp add: toString_nonempty toString_digits js_def is_space_def)

lemma nextAutoName_fresh:
  "fst (nextAutoName listExisting base w) \<notin> set (fst (listExisting w))"
proof
  obtain names w' where le: "listExisting w = (names, w')"
    by (cases "listExisting w")
  let ?used = "foldl (add_used (label base)) [] names"
  let ?i = "while_used_has ?used 1"
  assume "fst (nextAutoName listExisting base w) \<in> set (fst (listExisting w))"
  then have "label base @ js '' '' @ toString ?i \<in> set names"
    by (simp add: nextAutoName_def le Let_def)
  then have "parseInt10 (toString ?i) \<in> set ?used"
    unfolding set_foldl_add_used using regex_match_generated by blast
  then show False
    by (simp add: parseInt10_toString while_used_has_notin)
qed

lemma nextAutoName_least:
  "fst (nextAutoName listExisting base w) =
     label base @ js '' '' @
       toString (LEAST i. 0 < i \<and> i \<notin> numbers_in_use base (fst (listExisting w)))"
proof -
  have "while_used_has used (Suc 0) = (LEAST i. 0 < i \<and> i \<notin> set used)" for used
    by (simp add: while_used_has_least Suc_le_eq)
  then show ?thesis
    by (cases "listExisting w") (simp add: nextAutoName_def Let_def used_eq_numbers_in_use)
qed

lemma nextAutoName_empty:
  "fst (listExisting w) = [] \<Longrightarrow>
     fst (nextAutoName listExisting base w) = label base @ js '' 1''"
  by (cases "listExisting w")
     (simp add: nextAutoName_def while_used_has.simps [of "[]"] toString.simps [of "Suc 0"] js_def)

lemma nextAutoName_split:
  "nextAutoName listExisting base w = (name_for (fst (listExisting w)) base, snd (listExisting w))"
  by (cases "listExisting w") (simp add: nextAutoName_def name_for_def Let_def)

lemma name_for_empty: "name_for [] base = label base @ js '' 1''"
  by (simp add: name_for_def nextAutoName_empty)

lemma name_for_fresh: "name_for names base \<notin> set names"
  using nextAutoName_fresh [of "Pair names" base "()"] by (simp add: name_for_def)

lemma numbers_in_use_filter:
  "numbers_in_use base (filter (\<lambda>n. \<exists>k. matches_pattern (label base) n k) names)
     = numbers_in_use base names"
  by (auto simp: numbers_in_use_def)

text \<open>
  Claim C1. For every list of existing names and every base label, \<open>nextAutoName\<close> returns
  the base label, a space and the decimal form of the smallest positive integer that is not
  the number of an existing name matching \<^verbatim>\<open>^{base}\s+(k)$\<close> case-insensitively. For an
  empty list the result is \<^verbatim>\<open>{base} 1\<close>, and removing the names that do not match the
  pattern does not change the result.
\<close>

theorem nextAutoName_smallest_missing:
  "fst (nextAutoName listExisting base w) =
     label base @ js '' '' @
       toString (LEAST i. 0 < i \<and> i \<notin> numbers_in_use base (fst (listExisting w)))
   \<and> fst (nextAutoName (Pair []) base w) = label base @ js '' 1''
   \<and> fst (nextAutoName (Pair names) base w) =
       fst (nextAutoName
             (Pair (filter (\<lambda>n. \<exists>k. matches_pattern (label base) n k) names)) base w)"
proof (intro conjI)
  show "fst (nextAutoName listExisting base w) =
     label base @ js '' '' @
       toString (LEAST i. 0 < i \<and> i \<notin> numbers_in_use base (fst (listExisting w)))"
    by (rule nextAutoName_least)
  show "fst (nextAutoName (Pair []) base w) = label base @ js '' 1''"
    by (simp add: nextAutoName_empty)
  show "fst (nextAutoName (Pair names) base w) =
       fst (nextAutoName
             (Pair (filter (\<lambda>n. \<exists>k. matches_pattern (label base) n k) names)) base w)"
    by (simp add: nextAutoName_least numbers_in_use_filter)
qed

theorem nextAutoName_smallest_missing_witness:
  "fst (nextAutoName (Pair [js ''Result 1'', js ''result   3'', js ''Foo 1'', js ''Result''])
          Result ()) = js ''Result 2''
   \<and> toString (LEAST i. 0 < i \<and> i \<notin> numbers_in_use Result
          [js ''Result 1'', js ''result   3'', js ''Foo 1'', js ''Result'']) = js ''2''"
  using nextAutoName_smallest_missing
    [of "Pair [js ''Result 1'', js ''result   3'', js ''Foo 1'', js ''Result'']" Result "()"]
  by (simp add: nextAutoName_def js_def add_used_def regex_match_def is_space_def is_digit_def
        canonicalize_def parseInt10_def while_used_has.simps toString.simps)

section \<open>Properties of the local result history\<close>

lemma getScenarioResults_updated:
  "getScenarioResults (ls(storage_key sid \<mapsto> Parsed (updated sid xs))) sid = JArr xs"
  by (simp add: getScenarioResults_def try_parse_results_def results_of_def updated_def
        truthy_def js_def)

lemma storage_key_inj [simp]: "storage_key a = storage_key b \<longleftrightarrow> a = b"
  by (simp add: storage_key_def)

lemma getScenarioResults_other:
  "sid' \<noteq> sid \<Longrightarrow> getScenarioResults (ls(storage_key sid := v)) sid' = getScenarioResults ls sid'"
  by (simp add: getScenarioResults_def)

lemma getLatestResult_other:
  "sid' \<noteq> sid \<Longrightarrow> getLatestResult (ls(storage_key sid := v)) sid' = getLatestResult ls sid'"
  by (simp add: getLatestResult_def getScenarioResults_other)

lemma addScenarioResult_list:
  assumes "getScenarioResults ls sid = JArr xs"
  shows "addScenarioResult sid d now ls =
           Inr (length xs + 1,
                ls(storage_key sid \<mapsto>
                   Parsed (updated sid (xs @ [newResult (length xs + 1) now d]))))"
  using assms by (simp add: addScenarioResult_def)

lemma getLatestResult_list:
  "getScenarioResults ls sid = JArr xs \<Longrightarrow> getLatestResult ls sid = Some (Value (spec_latest xs))"
  by (simp add: getLatestResult_def spec_latest_def)

text \<open>The lists of the specification: a call changes the list of its own scenario only.\<close>

lemma spec_calls_other:
  "sid \<notin> scenario_of ` set cs \<Longrightarrow> snd (spec_calls cs h) sid = h sid"
  by (induction cs h rule: spec_calls.induct) (auto simp: Let_def case_prod_beta)

text \<open>
  A run of the module on local storage does what the specification's lists do, as long as
  the stored history of each scenario that is called reads as a list at the start.
\<close>

lemma run_calls_refines:
  assumes "\<forall>sid \<in> scenario_of ` set cs. getScenarioResults ls sid = JArr (h sid)"
  shows "\<exists>ls'. run_calls cs ls = Inr (fst (spec_calls cs h), ls')
           \<and> (\<forall>sid. if sid \<in> scenario_of ` set cs
                    then getScenarioResults ls' sid = JArr (snd (spec_calls cs h) sid)
                    else getScenarioResults ls' sid = getScenarioResults ls sid
                       \<and> getLatestResult ls' sid = getLatestResult ls sid)"
  using assms
proof (induction cs arbitrary: ls h)
  case Nil
  show ?case by simp
next
  case (Cons c cs)
  show ?case
  proof (cases c)
    case (Add sid0 d now)
    let ?n = "length (h sid0) + 1"
    let ?ls1 = "ls(storage_key sid0 \<mapsto> Parsed (updated sid0 (h sid0 @ [newResult ?n now d])))"
    let ?h1 = "h(sid0 := h sid0 @ [newResult ?n now d])"
    from Cons.prems Add have here: "getScenarioResults ls sid0 = JArr (h sid0)"
      by simp
    then have step: "addScenarioResult sid0 d now ls = Inr (?n, ?ls1)"
      by (rule addScenarioResult_list)
    have "\<forall>sid \<in> scenario_of ` set cs. getScenarioResults ?ls1 sid = JArr (?h1 sid)"
      using Cons.prems by (auto simp: getScenarioResults_updated getScenarioResults_other)
    from Cons.IH [OF this] obtain ls' where
      run: "run_calls cs ?ls1 = Inr (fst (spec_calls cs ?h1), ls')"
      and rest: "\<And>sid. if sid \<in> scenario_of ` set cs
                    then getScenarioResults ls' sid = JArr (snd (spec_calls cs ?h1) sid)
                    else getScenarioResults ls' sid = getScenarioResults ?ls1 sid
                       \<and> getLatestResult ls' sid = getLatestResult ?ls1 sid"
      by blast
    have "run_calls (c # cs) ls = Inr (fst (spec_calls (c # cs) h), ls')"
      using Add step run by (simp add: Let_def case_prod_beta)
    moreover have "if sid \<in> scenario_of ` set (c # cs)
                    then getScenarioResults ls' sid = JArr (snd (spec_calls (c # cs) h) sid)
                    else getScenarioResults ls' sid = getScenarioResults ls sid
                       \<and> getLatestResult ls' sid = getLatestResult ls sid" for sid
      using rest [of sid] Add spec_calls_other [of sid cs ?h1]
      by (auto simp: Let_def case_prod_beta getScenarioResults_updated getScenarioResults_other
            getLatestResult_other split: if_splits)
    ultimately show ?thesis by blast
  next
    case (Clear sid0)
    let ?ls1 = "clearScenarioResults sid0 ls"
    let ?h1 = "h(sid0 := [])"
    have cleared: "getScenarioResults ?ls1 sid0 = JArr []"
      by (simp add: clearScenarioResults_def getScenarioResults_def)
    have other: "sid \<noteq> sid0 \<Longrightarrow> getScenarioResults ?ls1 sid = getScenarioResults ls sid
        \<and> getLatestResult ?ls1 sid = getLatestResult ls sid" for sid
      by (simp add: clearScenarioResults_def getScenarioResults_other getLatestResult_other)
    have "\<forall>sid \<in> scenario_of ` set cs. getScenarioResults ?ls1 sid = JArr (?h1 sid)"
      using Cons.prems cleared other by auto
    from Cons.IH [OF this] obtain ls' where
      run: "run_calls cs ?ls1 = Inr (fst (spec_calls cs ?h1), ls')"
      and rest: "\<And>sid. if sid \<in> scenario_of ` set cs
                    then getScenarioResults ls' sid = JArr (snd (spec_calls cs ?h1) sid)
                    else getScenarioResults ls' sid = getScenarioResults ?ls1 sid
                       \<and> getLatestResult ls' sid = getLatestResult ?ls1 sid"
      by blast
    have "run_calls (c # cs) ls = Inr (fst (spec_calls (c # cs) h), ls')"
      using Clear run by simp
    moreover have "if sid \<in> scenario_of ` set (c # cs)
                    then getScenarioResults ls' sid = JArr (snd (spec_calls (c # cs) h) sid)
                    else getScenarioResults ls' sid = getScenarioResults ls sid
                       \<and> getLatestResult ls' sid = getLatestResult ls sid" for sid
      using rest [of sid] Clear spec_calls_other [of sid cs ?h1] cleared other [of sid]
      by (auto split: if_splits)
    ultimately show ?thesis by blast
  qed
qed

text \<open>
  Claim C9. In the local variant, take any sequence of calls of \<open>addScenarioResult\<close> and
  \<open>clearScenarioResults\<close> on any scenarios, run on a storage in which the history of each
  scenario that is called reads as a list. The run does what the specification's
  append-only lists do: every call of \<open>addScenarioResult\<close> returns the length that the list
  of its scenario has at that moment plus one (the number counts the entries and fills
  no gap) and appends its entry to that list, and no call touches the list of another
  scenario. After the run, for each scenario that was called, \<open>getLatestResult\<close>
  returns the last entry of its list, or null when the list is empty; a further
  \<open>addScenarioResult\<close> returns the length of the list plus one and its entry is then the
  latest; and the entries of all other scenarios read as before the run.
\<close>

theorem local_results_append_only:
  assumes "\<forall>sid \<in> scenario_of ` set cs. getScenarioResults ls sid = JArr (h sid)"
  shows "\<exists>ls'. run_calls cs ls = Inr (fst (spec_calls cs h), ls')
           \<and> (\<forall>sid. if sid \<in> scenario_of ` set cs
                    then getScenarioResults ls' sid = JArr (snd (spec_calls cs h) sid)
                       \<and> getLatestResult ls' sid
                           = Some (Value (spec_latest (snd (spec_calls cs h) sid)))
                       \<and> (\<forall>d now. \<exists>ls''.
                              addScenarioResult sid d now ls'
                                = Inr (length (snd (spec_calls cs h) sid) + 1, ls'')
                              \<and> getScenarioResults ls'' sid
                                  = JArr (snd (spec_calls cs h) sid
                                      @ [newResult (length (snd (spec_calls cs h) sid) + 1) now d])
                              \<and> getLatestResult ls'' sid
                                  = Some (Value
                                      (newResult (length (snd (spec_calls cs h) sid) + 1) now d)))
                    else getScenarioResults ls' sid = getScenarioResults ls sid
                       \<and> getLatestResult ls' sid = getLatestResult ls sid)"
proof -
  from run_calls_refines [OF assms] obtain ls' where
    run: "run_calls cs ls = Inr (fst (spec_calls cs h), ls')"
    and rest: "\<And>sid. if sid \<in> scenario_of ` set cs
                    then getScenarioResults ls' sid = JArr (snd (spec_calls cs h) sid)
                    else getScenarioResults ls' sid = getScenarioResults ls sid
                       \<and> getLatestResult ls' sid = getLatestResult ls sid"
    by blast
  have "getScenarioResults ls' sid = JArr (snd (spec_calls cs h) sid)
      \<and> getLatestResult ls' sid = Some (Value (spec_latest (snd (spec_calls cs h) sid)))
      \<and> (\<forall>d now. \<exists>ls''.
             addScenarioResult sid d now ls'
               = Inr (length (snd (spec_calls cs h) sid) + 1, ls'')
             \<and> getScenarioResults ls'' sid
                 = JArr (snd (spec_calls cs h) sid
                     @ [newResult (length (snd (spec_calls cs h) sid) + 1) now d])
             \<and> getLatestResult ls'' sid
                 = Some (Value (newResult (length (snd (spec_calls cs h) sid) + 1) now d)))"
    if "sid \<in> scenario_of ` set cs" for sid
  proof -
    from rest [of sid] that
    have list: "getScenarioResults ls' sid = JArr (snd (spec_calls cs h) sid)"
      by simp
    show ?thesis
      using list
      by (simp add: addScenarioResult_list getLatestResult_list getScenarioResults_updated
            spec_latest_def)
  qed
  with run rest show ?thesis
    by (intro exI [of _ ls']) simp
qed

theorem local_results_append_only_witness:
  "getScenarioResults sample_storage (js ''s1'') = JArr []
   \<and> getScenarioResults sample_storage (js ''s2'') = JArr []
   \<and> getScenarioResults sample_storage (js ''s3'') = JNum 5
   \<and> (case run_calls sample_calls sample_storage of
         Inl e \<Rightarrow> False
       | Inr (ns, ls') \<Rightarrow>
           ns = [1, 2, 1, 3, 1]
           \<and> getScenarioResults ls' (js ''s1'')
               = JArr [newResult 1 (js ''t1'') (JNum 10), newResult 2 (js ''t2'') (JNum 20),
                       newResult 3 (js ''t4'') (JNum 40)]
           \<and> getLatestResult ls' (js ''s1'') = Some (Value (newResult 3 (js ''t4'') (JNum 40)))
           \<and> getScenarioResults ls' (js ''s2'') = JArr [newResult 1 (js ''t5'') (JNum 50)]
           \<and> getLatestResult ls' (js ''s2'') = Some (Value (newResult 1 (js ''t5'') (JNum 50)))
           \<and> getScenarioResults ls' (js ''s3'') = JNum 5
           \<and> map_sum id fst (addScenarioResult (js ''s1'') JNull (js ''t6'') ls') = Inr 4)"
proof -
  have start: "getScenarioResults sample_storage (js ''s1'') = JArr []"
    "getScenarioResults sample_storage (js ''s2'') = JArr []"
    "getScenarioResults sample_storage (js ''s3'') = JNum 5"
    by (simp_all add: sample_storage_def getScenarioResults_def try_parse_results_def
          results_of_def truthy_def storage_key_def js_def)
  have called: "scenario_of ` set sample_calls = {js ''s1'', js ''s2''}"
    by (auto simp: sample_calls_def)
  have s3: "js ''s3'' \<notin> scenario_of ` set sample_calls"
    unfolding called by (simp add: js_def)
  have lists: "fst (spec_calls sample_calls (\<lambda>sid. [])) = [1, 2, 1, 3, 1]"
    "snd (spec_calls sample_calls (\<lambda>sid. [])) (js ''s1'')
       = [newResult 1 (js ''t1'') (JNum 10), newResult 2 (js ''t2'') (JNum 20),
          newResult 3 (js ''t4'') (JNum 40)]"
    "snd (spec_calls sample_calls (\<lambda>sid. [])) (js ''s2'') = [newResult 1 (js ''t5'') (JNum 50)]"
    by (simp_all add: sample_calls_def Let_def js_def newResult_def)
  have "\<forall>sid \<in> scenario_of ` set sample_calls. getScenarioResults sample_storage sid = JArr []"
    unfolding called using start by simp
  from local_results_append_only [OF this] obtain ls' where
    run: "run_calls sample_calls sample_storage
            = Inr (fst (spec_calls sample_calls (\<lambda>sid. [])), ls')"
    and rest: "\<And>sid. if sid \<in> scenario_of ` set sample_calls
         then getScenarioResults ls' sid = JArr (snd (spec_calls sample_calls (\<lambda>sid. [])) sid)
            \<and> getLatestResult ls' sid
                = Some (Value (spec_latest (snd (spec_calls sample_calls (\<lambda>sid. [])) sid)))
            \<and> (\<forall>d now. \<exists>ls''.
                   addScenarioResult sid d now ls'
                     = Inr (length (snd (spec_calls sample_calls (\<lambda>sid. [])) sid) + 1, ls'')
                   \<and> getScenarioResults ls'' sid
                       = JArr (snd (spec_calls sample_calls (\<lambda>sid. [])) sid
                           @ [newResult (length (snd (spec_calls sample_calls (\<lambda>sid. [])) sid) + 1)
                                now d])
                   \<and> getLatestResult ls'' sid
                       = Some (Value
                           (newResult (length (snd (spec_calls sample_calls (\<lambda>sid. [])) sid) + 1)
                              now d)))
         else getScenarioResults ls' sid = getScenarioResults sample_storage sid
            \<and> getLatestResult ls' sid = getLatestResult sample_storage sid"
    by blast
  have in1: "js ''s1'' \<in> scenario_of ` set sample_calls"
    and in2: "js ''s2'' \<in> scenario_of ` set sample_calls"
    unfolding called by simp_all
  note r1 = rest [of "js ''s1''", unfolded if_P [OF in1] lists]
  note r2 = rest [of "js ''s2''", unfolded if_P [OF in2] lists]
  from r1 have s1:
    "getScenarioResults ls' (js ''s1'')
       = JArr [newResult 1 (js ''t1'') (JNum 10), newResult 2 (js ''t2'') (JNum 20),
               newResult 3 (js ''t4'') (JNum 40)]"
    "getLatestResult ls' (js ''s1'') = Some (Value (newResult 3 (js ''t4'') (JNum 40)))"
    by (simp_all add: spec_latest_def)
  from r1 obtain ls'' where
    "addScenarioResult (js ''s1'') JNull (js ''t6'') ls'
       = Inr (length [newResult 1 (js ''t1'') (JNum 10), newResult 2 (js ''t2'') (JNum 20),
                      newResult 3 (js ''t4'') (JNum 40)] + 1, ls'')"
    by blast
  then have next1: "map_sum id fst (addScenarioResult (js ''s1'') JNull (js ''t6'') ls') = Inr 4"
    by simp
  from r2 have s2:
    "getScenarioResults ls' (js ''s2'') = JArr [newResult 1 (js ''t5'') (JNum 50)]"
    "getLatestResult ls' (js ''s2'') = Some (Value (newResult 1 (js ''t5'') (JNum 50)))"
    by (simp_all add: spec_latest_def)
  from rest [of "js ''s3''"] s3 start have
    "getScenarioResults ls' (js ''s3'') = JNum 5"
    by simp
  with start s1 next1 s2 show ?thesis
    unfolding run lists by simp
qed

text \<open>
  Claim C10. When the stored entry is absent, is not valid JSON (the parse throws inside the
  \<^verbatim>\<open>try\<close>), or is a JSON value without a \<open>results\<close> member (for \<^verbatim>\<open>null\<close> the property
  access throws inside the \<^verbatim>\<open>try\<close>), \<open>getScenarioResults\<close> returns the empty list and
  \<open>getLatestResult\<close> returns null.
\<close>

theorem getScenarioResults_never_throws:
  assumes "case ls (storage_key sid) of
             None \<Rightarrow> True
           | Some Unparsable \<Rightarrow> True
           | Some (Parsed parsed) \<Rightarrow> lacks_results parsed"
  shows "getScenarioResults ls sid = JArr []
       \<and> getLatestResult ls sid = Some (Value JNull)"
proof -
  have "getScenarioResults ls sid = JArr []"
    using assms
    by (auto simp: getScenarioResults_def try_parse_results_def results_of_def lacks_results_def
          split: option.splits item.splits json.splits)
  then show ?thesis
    by (simp add: getLatestResult_def)
qed

theorem getScenarioResults_never_throws_witness:
  "(getScenarioResults Map.empty (js ''s1'') = JArr []
      \<and> getLatestResult Map.empty (js ''s1'') = Some (Value JNull))
   \<and> (getScenarioResults [storage_key (js ''s1'') \<mapsto> Unparsable] (js ''s1'') = JArr []
      \<and> getLatestResult [storage_key (js ''s1'') \<mapsto> Unparsable] (js ''s1'') = Some (Value JNull))
   \<and> (getScenarioResults [storage_key (js ''s1'') \<mapsto> Parsed JNull] (js ''s1'') = JArr []
      \<and> getLatestResult [storage_key (js ''s1'') \<mapsto> Parsed JNull] (js ''s1'') = Some (Value JNull))
   \<and> (getScenarioResults
         [storage_key (js ''s1'') \<mapsto> Parsed (JObj [(js ''scenarioId'', JStr (js ''s1''))])]
         (js ''s1'') = JArr []
      \<and> getLatestResult
         [storage_key (js ''s1'') \<mapsto> Parsed (JObj [(js ''scenarioId'', JStr (js ''s1''))])]
         (js ''s1'') = Some (Value JNull))"
  using getScenarioResults_never_throws [of Map.empty "js ''s1''"]
    getScenarioResults_never_throws [of "[storage_key (js ''s1'') \<mapsto> Unparsable]" "js ''s1''"]
    getScenarioResults_never_throws [of "[storage_key (js ''s1'') \<mapsto> Parsed JNull]" "js ''s1''"]
    getScenarioResults_never_throws
      [of "[storage_key (js ''s1'') \<mapsto> Parsed (JObj [(js ''scenarioId'', JStr (js ''s1''))])]"
          "js ''s1''"]
  by (simp add: lacks_results_def js_def)

section \<open>Properties of the store workflows\<close>

text \<open>The equations that evaluate the workflows on concrete worlds.\<close>

lemmas name_eval =
  name_for_def nextAutoName_def js_def add_used_def regex_match_def is_space_def is_digit_def
  canonicalize_def parseInt10_def while_used_has.simps toString.simps

lemmas order_eval = next_number_def order_desc_def

lemmas world_eval =
  select_rows_def insert_row_def update_rows_def enter_def client_def one_scenario_def
  insert_project_def insert_scenario_def insert_output_def unique_violation_def Let_def

subsection \<open>Requests when no other client writes\<close>

lemma calls_enter [simp]: "calls (enter c w) = calls w @ [c]"
  by (simp add: enter_def split: list.split)

lemma enter_quiet:
  "concurrent w = [] \<Longrightarrow> enter c w = w\<lparr>calls := calls w @ [c]\<rparr>"
  by (simp add: enter_def)

lemma select_rows_quiet:
  "concurrent w = [] \<Longrightarrow>
     select_rows t rows w = (rows (db w), w\<lparr>calls := calls w @ [SelectFrom t]\<rparr>)"
  by (simp add: select_rows_def enter_quiet)

lemma insert_row_quiet:
  "concurrent w = [] \<Longrightarrow>
     insert_row c ins w =
       (case ins (db w) of
          Inl e \<Rightarrow> ((None, Some e), w\<lparr>calls := calls w @ [c]\<rparr>)
        | Inr (row, s') \<Rightarrow> ((Some row, None), w\<lparr>calls := calls w @ [c], db := s'\<rparr>))"
  by (simp add: insert_row_def enter_quiet split: sum.split)

subsection \<open>Query results\<close>

lemma single_row_simps [simp]:
  "single_row [] = (None, Some (PgError ''PGRST116''))"
  "single_row [r] = (Some r, None)"
  "single_row (r # q # rs) = (None, Some (PgError ''PGRST116''))"
  by (simp_all add: single_row_def)

lemma range_rows_page: "range_rows off (int off + int l - 1) rows = take l (drop off rows)"
  by (simp add: range_rows_def)

lemma order_desc_sorted:
  "sorted_wrt (\<lambda>a b. column b \<le> column a) (order_desc column rows)"
proof -
  have "sorted (map column (sort_key column rows))"
    by (rule sorted_sort_key)
  then have "sorted_wrt (\<lambda>a b. column a \<le> column b) (sort_key column rows)"
    by (simp add: sorted_map)
  then show ?thesis
    by (simp add: order_desc_def sorted_wrt_rev)
qed

lemma set_order_desc [simp]: "set (order_desc column rows) = set rows"
  by (simp add: order_desc_def)

lemma distinct_order_desc [simp]: "distinct (order_desc column rows) = distinct rows"
  by (simp add: order_desc_def)

subsection \<open>The providers without a user\<close>

text \<open>
  Claim C8. Without a signed-in user, the \<open>ensureScenario\<close> and \<open>ensureProject\<close> entry
  points of the providers return null, and the provider state and the world (the database
  and the record of requests to the store) are exactly as before.
\<close>

theorem unauthenticated_ensure_returns_null:
  "ScenarioProvider_ensureScenario None projectId moduleType (st, w) = (None, st, w)
   \<and> ProjectProvider_ensureProject ensureProjectData None toolType (st', w) = (None, st', w)"
  by (simp add: ScenarioProvider_ensureScenario_def ProjectProvider_ensureProject_def)

subsection \<open>Listing results\<close>

text \<open>
  When the keys of the rows are distinct, there is one descending order of the rows, and
  the order in which the store keeps the rows has no part in it.
\<close>

lemma descending_unique:
  assumes keys: "distinct (map column rows)"
    and same: "set ys = set rows" and dist: "distinct ys"
    and desc: "sorted_wrt (\<lambda>a b. column b \<le> column a) ys"
  shows "ys = order_desc column rows"
proof -
  from keys have inj: "inj_on column (set rows)" and rows: "distinct rows"
    by (simp_all add: distinct_map)
  have "sorted_wrt (\<lambda>a b. column a \<le> column b) (rev ys)"
    using desc by (simp add: sorted_wrt_rev)
  then have "sorted (map column (rev ys))"
    by (simp add: sorted_map)
  moreover have "distinct (map column (rev ys))"
    using dist inj same by (simp add: distinct_map)
  moreover have "sorted (map column (sort_key column rows))"
    by (rule sorted_sort_key)
  moreover have "distinct (map column (sort_key column rows))"
    using rows inj by (simp add: distinct_map)
  moreover have "set (map column (rev ys)) = set (map column (sort_key column rows))"
    using same by simp
  ultimately have "map column (rev ys) = map column (sort_key column rows)"
    by (rule sorted_distinct_set_unique)
  moreover have "inj_on column (set (rev ys) \<union> set (sort_key column rows))"
    using inj same by simp
  ultimately have "rev ys = sort_key column rows"
    by (rule map_inj_on)
  then have "rev (rev ys) = rev (sort_key column rows)"
    by (rule arg_cong)
  then show ?thesis
    by (simp add: order_desc_def)
qed

lemma order_desc_rearranged:
  assumes "distinct (map column rows)"
  shows "order_desc column (sort_key rank rows) = order_desc column rows"
proof (rule descending_unique [OF assms])
  show "set (order_desc column (sort_key rank rows)) = set rows"
    by simp
  from assms have "distinct rows"
    by (simp add: distinct_map)
  then show "distinct (order_desc column (sort_key rank rows))"
    by simp
  show "sorted_wrt (\<lambda>a b. column b \<le> column a) (order_desc column (sort_key rank rows))"
    by (rule order_desc_sorted)
qed

lemma descending_strict:
  "sorted_wrt (\<lambda>a b. column b \<le> column a) rows \<Longrightarrow> distinct (map column rows)
     \<Longrightarrow> sorted_wrt (\<lambda>a b. (column b :: nat) < column a) rows"
proof (induction rows)
  case Nil
  show ?case by simp
next
  case (Cons a rows)
  then have "\<forall>x \<in> set rows. column x \<le> column a" and "column a \<notin> column ` set rows"
    by auto
  then have "\<forall>x \<in> set rows. column x < column a"
    by (metis image_eqI le_neq_implies_less)
  with Cons show ?case
    by simp
qed

text \<open>\<open>listResults\<close> when no other client writes, and when the store rearranges its rows first.\<close>

lemma listResults_quiet:
  assumes "concurrent w = []"
  shows "listResults sid \<lparr>opt_limit = lmt, opt_offset = off\<rparr> w =
      (take (case lmt of None \<Rightarrow> 10 | Some l \<Rightarrow> l)
         (drop (case off of None \<Rightarrow> 0 | Some k \<Rightarrow> k)
            (order_desc r_created_at
               (filter (\<lambda>r. r_scenario_id r = sid) (scenario_outputs (db w))))),
       w\<lparr>calls := calls w @ [SelectFrom scenario_outputs_table]\<rparr>)"
  using assms by (simp add: listResults_def select_rows_quiet range_rows_page Let_def)

lemma listResults_rearranged:
  assumes "concurrent w = [[Rearrange rank]]"
  shows "fst (listResults sid \<lparr>opt_limit = lmt, opt_offset = off\<rparr> w) =
      take (case lmt of None \<Rightarrow> 10 | Some l \<Rightarrow> l)
         (drop (case off of None \<Rightarrow> 0 | Some k \<Rightarrow> k)
            (order_desc r_created_at
               (sort_key (\<lambda>r. rank (r_id r))
                  (filter (\<lambda>r. r_scenario_id r = sid) (scenario_outputs (db w))))))"
  using assms
  by (simp add: listResults_def select_rows_def enter_def range_rows_page Let_def filter_sort)

text \<open>
  Claim C7. \<open>listResults\<close> returns the slice \<open>take limit (drop offset \<dots>)\<close> of the scenario's
  results in descending \<open>created_at\<close> order. When the results of the scenario have distinct
  \<open>created_at\<close> values, that order is the only descending order of these rows, whatever
  the order in which the store keeps and visits them. So with no insert or delete between
  the calls, and even if the store rearranges its rows between them, the page at offset 0
  with limit 10 and the page at offset 10 are the first ten and the next ten rows of that
  order: they follow one another in it and share no row.
\<close>

theorem listResults_pages:
  assumes quiet: "concurrent w = []"
    and times: "distinct (map r_created_at
                  (filter (\<lambda>r. r_scenario_id r = sid) (scenario_outputs (db w))))"
  shows "let ordered = order_desc r_created_at
                 (filter (\<lambda>r. r_scenario_id r = sid) (scenario_outputs (db w)));
             (page1, w1) = listResults sid \<lparr>opt_limit = Some 10, opt_offset = Some 0\<rparr> w;
             (page2, w2) = listResults sid \<lparr>opt_limit = Some 10, opt_offset = Some 10\<rparr>
                             (w1\<lparr>concurrent := [[Rearrange rank]]\<rparr>)
         in sorted_wrt (\<lambda>a b. r_created_at b < r_created_at a) ordered
          \<and> set ordered = {r \<in> set (scenario_outputs (db w)). r_scenario_id r = sid}
          \<and> (\<forall>ys. set ys = set ordered \<and> distinct ys
                    \<and> sorted_wrt (\<lambda>a b. r_created_at b \<le> r_created_at a) ys
                 \<longrightarrow> ys = ordered)
          \<and> page1 = take 10 ordered
          \<and> page2 = take 10 (drop 10 ordered)
          \<and> page1 @ page2 = take 20 ordered
          \<and> set page1 \<inter> set page2 = {}
          \<and> fst (listResults sid \<lparr>opt_limit = Some l, opt_offset = Some off\<rparr> w)
              = take l (drop off ordered)
          \<and> fst (listResults sid \<lparr>opt_limit = Some l, opt_offset = Some off\<rparr>
                   (w\<lparr>concurrent := [[Rearrange rank]]\<rparr>))
              = take l (drop off ordered)
          \<and> fst (listResults sid \<lparr>opt_limit = None, opt_offset = None\<rparr> w) = page1"
proof -
  let ?rows = "filter (\<lambda>r. r_scenario_id r = sid) (scenario_outputs (db w))"
  define ordered where "ordered = order_desc r_created_at ?rows"
  have desc: "sorted_wrt (\<lambda>a b. r_created_at b \<le> r_created_at a) ordered"
    unfolding ordered_def by (rule order_desc_sorted)
  have "distinct ?rows"
    using times by (simp add: distinct_map)
  then have dist: "distinct ordered"
    by (simp add: ordered_def)
  have "distinct (map r_created_at ordered)"
    using times dist by (simp add: distinct_map ordered_def)
  with desc have strict: "sorted_wrt (\<lambda>a b. r_created_at b < r_created_at a) ordered"
    by (rule descending_strict)
  have rows: "set ordered = {r \<in> set (scenario_outputs (db w)). r_scenario_id r = sid}"
    by (auto simp: ordered_def)
  have only: "ys = ordered"
    if "set ys = set ordered \<and> distinct ys
          \<and> sorted_wrt (\<lambda>a b. r_created_at b \<le> r_created_at a) ys" for ys
    unfolding ordered_def using that
    by (intro descending_unique [OF times]) (simp_all add: ordered_def)
  have again: "order_desc r_created_at (sort_key (\<lambda>r. rank (r_id r)) ?rows) = ordered"
    unfolding ordered_def by (rule order_desc_rearranged [OF times])
  have join: "take 10 ordered @ take 10 (drop 10 ordered) = take 20 ordered"
    by (simp add: take_add [of 10 10 ordered, symmetric])
  have disj: "set (take 10 ordered) \<inter> set (take 10 (drop 10 ordered)) = {}"
    using set_take_disj_set_drop_if_distinct [OF dist, of 10 10]
      set_take_subset [of 10 "drop 10 ordered"] by auto
  show ?thesis
    using strict rows only join disj
    by (simp add: listResults_quiet quiet listResults_rearranged again Let_def case_prod_beta
          ordered_def [symmetric])
qed

theorem listResults_pages_witness:
  "concurrent (client twelve_results []) = []
   \<and> map r_created_at (filter (\<lambda>r. r_scenario_id r = 2)
          (scenario_outputs (db (client twelve_results []))))
       = [101, 102, 103, 104, 105, 106, 107, 108, 109, 110, 111, 112]
   \<and> (let (page1, w1) = listResults 2 \<lparr>opt_limit = Some 10, opt_offset = Some 0\<rparr>
                            (client twelve_results []);
            (page2, w2) = listResults 2 \<lparr>opt_limit = Some 10, opt_offset = Some 10\<rparr>
                            (w1\<lparr>concurrent := [[Rearrange evens_first]]\<rparr>)
        in map r_id page1 = [22, 21, 20, 19, 18, 17, 16, 15, 14, 13]
         \<and> map r_id page2 = [12, 11]
         \<and> map r_id (scenario_outputs (db w2))
             = [12, 14, 16, 30, 18, 20, 22, 11, 13, 15, 17, 19, 21])"
proof -
  let ?w = "client twelve_results []"
  have q: "concurrent ?w = []"
    by (simp add: client_def)
  have rows: "scenario_outputs (db ?w) =
      map numbered [1, 2, 3, 4, 5, 6] @ [output_row 30 5 (js ''Result 1'') 1 106]
      @ map numbered [7, 8, 9, 10, 11, 12]"
    by (simp add: client_def twelve_results_def)
  have t: "map r_created_at (filter (\<lambda>r. r_scenario_id r = 2) (scenario_outputs (db ?w)))
       = [101, 102, 103, 104, 105, 106, 107, 108, 109, 110, 111, 112]"
    unfolding rows by (simp add: numbered_def output_row_def)
  have d: "distinct (map r_created_at (filter (\<lambda>r. r_scenario_id r = 2)
             (scenario_outputs (db ?w))))"
    unfolding t by simp
  have e: "map r_id (order_desc r_created_at (filter (\<lambda>r. r_scenario_id r = 2)
              (scenario_outputs (db ?w)))) = [22, 21, 20, 19, 18, 17, 16, 15, 14, 13, 12, 11]"
    unfolding rows by (simp add: numbered_def output_row_def order_desc_def)
  have moved: "map r_id (scenario_outputs (db (snd
        (listResults 2 \<lparr>opt_limit = Some 10, opt_offset = Some 10\<rparr>
           ((snd (listResults 2 \<lparr>opt_limit = Some 10, opt_offset = Some 0\<rparr> ?w))
              \<lparr>concurrent := [[Rearrange evens_first]]\<rparr>)))))
      = [12, 14, 16, 30, 18, 20, 22, 11, 13, 15, 17, 19, 21]"
    by (simp add: listResults_def select_rows_def enter_def client_def twelve_results_def
          numbered_def output_row_def evens_first_def Let_def case_prod_beta)
  from listResults_pages [OF q d, of evens_first] q t e moved show ?thesis
    by (simp add: Let_def case_prod_beta take_map [symmetric] drop_map [symmetric]
          del: take_map drop_map)
qed

subsection \<open>Calling \<open>ensureProject\<close> twice\<close>

text \<open>What each revision does when no other client writes.\<close>

lemma ensureProject_quiet:
  assumes "concurrent w = []"
  shows "ensureProject u t w =
    (case filter (\<lambda>p. p_user_id p = u \<and> p_tool_type p = t) (projects (db w)) of
       r # rs \<Rightarrow> (Some r, w\<lparr>calls := calls w @ [SelectFrom projects_table]\<rparr>)
     | [] \<Rightarrow>
        (let name = label (getModulePrefix t) @ js '' 1'';
             cs = calls w @ [SelectFrom projects_table, SelectFrom projects_table,
                             InsertInto projects_table name None]
         in case insert_project u name t None (JObj []) (JObj []) 0 (db w) of
              Inl e \<Rightarrow> (None, w\<lparr>calls := cs @ [SelectFrom projects_table]\<rparr>)
            | Inr (row, s') \<Rightarrow> (Some row, w\<lparr>calls := cs, db := s'\<rparr>)))"
proof (cases "filter (\<lambda>p. p_user_id p = u \<and> p_tool_type p = t) (projects (db w))")
  case Nil
  show ?thesis
    using assms Nil
    apply (simp add: ensureProject_def select_rows_quiet Let_def
        nextAutoName_split name_for_empty insert_row_quiet)
    apply (simp add: insert_project_def Let_def unique_violation_def select_rows_quiet
        split: sum.split)
    done
next
  case (Cons r rs)
  then show ?thesis
    using assms
    by (simp add: ensureProject_def select_rows_quiet Let_def)
qed

lemma insert_project_cases:
  "insert_project u name t d i r z s =
     (if list_ex (\<lambda>p. p_user_id p = u \<and> p_name p = name) (projects s)
      then Inl unique_violation
      else Inr (\<lparr>p_id = next_uuid s, p_user_id = u, p_name = name, p_description = d,
                  p_tool_type = t, p_input_data = i, p_results_data = r, p_size_mb = z,
                  p_created_at = clock s, p_updated_at = clock s\<rparr>,
                s\<lparr>projects := projects s @
                    [\<lparr>p_id = next_uuid s, p_user_id = u, p_name = name, p_description = d,
                      p_tool_type = t, p_input_data = i, p_results_data = r, p_size_mb = z,
                      p_created_at = clock s, p_updated_at = clock s\<rparr>],
                  next_uuid := Suc (next_uuid s), clock := Suc (clock s)\<rparr>))"
  by (simp add: insert_project_def Let_def)

lemma order_desc_eq_Nil [simp]: "order_desc column rows = [] \<longleftrightarrow> rows = []"
  by (metis set_empty set_order_desc)

lemma order_desc_Nil [simp]: "order_desc column [] = []"
  by simp

lemma order_desc_single [simp]: "order_desc column [r] = [r]"
  by (simp add: order_desc_def)

lemma ensureProject_legacy_quiet:
  assumes "concurrent w = []"
  shows "ensureProject_legacy u t w =
    (case order_desc p_updated_at
            (filter (\<lambda>p. p_user_id p = u \<and> p_tool_type p = t) (projects (db w))) of
       r # rs \<Rightarrow> (Some r, w\<lparr>calls := calls w @ [SelectFrom projects_table]\<rparr>)
     | [] \<Rightarrow>
        (let name = name_for (map p_name (filter (\<lambda>p. p_user_id p = u) (projects (db w)))) Project;
             row = \<lparr>p_id = next_uuid (db w), p_user_id = u, p_name = name,
                     p_description = None, p_tool_type = t, p_input_data = JObj [],
                     p_results_data = JObj [], p_size_mb = 0, p_created_at = clock (db w),
                     p_updated_at = clock (db w)\<rparr>
         in (Some row,
             w\<lparr>calls := calls w @ [SelectFrom projects_table, SelectFrom projects_table,
                                     InsertInto projects_table name None],
               db := (db w)\<lparr>projects := projects (db w) @ [row],
                             next_uuid := Suc (next_uuid (db w)),
                             clock := Suc (clock (db w))\<rparr>\<rparr>)))"
proof (cases "order_desc p_updated_at
            (filter (\<lambda>p. p_user_id p = u \<and> p_tool_type p = t) (projects (db w)))")
  case Nil
  let ?names = "map p_name (filter (\<lambda>p. p_user_id p = u) (projects (db w)))"
  have free: "\<not> list_ex (\<lambda>p. p_user_id p = u \<and> p_name p = name_for ?names Project)
                     (projects (db w))"
  proof
    assume "list_ex (\<lambda>p. p_user_id p = u \<and> p_name p = name_for ?names Project) (projects (db w))"
    then obtain p where "p \<in> set (projects (db w))" "p_user_id p = u"
      "p_name p = name_for ?names Project"
      by (auto simp: list_ex_iff)
    then have "name_for ?names Project \<in> set ?names"
      by force
    then show False
      using name_for_fresh by blast
  qed
  show ?thesis
    using assms Nil free
    by (simp add: ensureProject_legacy_def select_rows_quiet Let_def nextAutoName_split
          insert_row_quiet insert_project_cases)
next
  case (Cons r rs)
  then show ?thesis
    using assms
    by (simp add: ensureProject_legacy_def select_rows_quiet Let_def)
qed

text \<open>
  In the older revision the new name is computed over all names of the user, the scope of
  the unique constraint, so that with no other client writing the insert is accepted and
  a project is returned (\<open>ensureProject_legacy_quiet\<close>). In the revision of
  src/lib/naming.ts the name is computed over the names of the tool only.
\<close>

lemma name_taken_eval:
  "concurrent name_taken = []"
  "calls name_taken = [SelectFrom projects_table, UpdateIn projects_table 1 (js ''GFA 1'')]"
  "db name_taken =
     one_scenario\<lparr>projects :=
        [\<lparr>p_id = 1, p_user_id = 7, p_name = js ''GFA 1'', p_description = None,
          p_tool_type = forecasting, p_input_data = JObj [], p_results_data = JObj [],
          p_size_mb = 0, p_created_at = 0, p_updated_at = 0\<rparr>]\<rparr>"
  by (simp_all add: name_taken_def renameProject_def update_project_name_def one_scenario_def
        world_eval js_def)

text \<open>
  Claim C6. The claim fails on \<open>ensureProject\<close> in the revision of src/lib/naming.ts.
  User 7 has a forecasting project and no project for the tool \<open>gfa\<close>, and has renamed
  the forecasting project to \<open>GFA 1\<close>. With no other client writing, \<open>ensureProject\<close> for
  user 7 and \<open>gfa\<close> finds no project, computes the name \<open>GFA 1\<close> over the names of the
  user's \<open>gfa\<close> projects, has its insert rejected by the user's unique names, finds no
  \<open>gfa\<close> project again and returns null. The second call does the same: no entity is
  returned by either call, and none is created. On the same world the older revision,
  which computes the name over all names of the user, creates \<open>Project 1\<close> and returns it.
\<close>

theorem ensureProject_null_twice:
  "fst (renameProject 1 (js ''GFA 1'') 7 (client one_scenario [])) = succeeded
   \<and> concurrent name_taken = []
   \<and> map (\<lambda>p. (p_id p, p_user_id p, p_name p, p_tool_type p)) (projects (db name_taken))
       = [(1, 7, js ''GFA 1'', forecasting)]
   \<and> (let (r1, w1) = ensureProject 7 gfa name_taken; (r2, w2) = ensureProject 7 gfa w1
      in r1 = None \<and> r2 = None
       \<and> requests_made name_taken w1 =
           [SelectFrom projects_table, SelectFrom projects_table,
            InsertInto projects_table (js ''GFA 1'') None, SelectFrom projects_table]
       \<and> requests_made w1 w2 =
           [SelectFrom projects_table, SelectFrom projects_table,
            InsertInto projects_table (js ''GFA 1'') None, SelectFrom projects_table]
       \<and> db w1 = db name_taken \<and> db w2 = db name_taken)
   \<and> map_option (\<lambda>p. (p_name p, p_tool_type p)) (fst (ensureProject_legacy 7 gfa name_taken))
       = Some (js ''Project 1'', gfa)"
proof (intro conjI)
  show "fst (renameProject 1 (js ''GFA 1'') 7 (client one_scenario [])) = succeeded"
    by (simp add: renameProject_def update_project_name_def one_scenario_def world_eval js_def)
  show "concurrent name_taken = []"
    by (rule name_taken_eval)
  show "map (\<lambda>p. (p_id p, p_user_id p, p_name p, p_tool_type p)) (projects (db name_taken))
       = [(1, 7, js ''GFA 1'', forecasting)]"
    by (simp add: name_taken_eval)
  show "let (r1, w1) = ensureProject 7 gfa name_taken; (r2, w2) = ensureProject 7 gfa w1
      in r1 = None \<and> r2 = None
       \<and> requests_made name_taken w1 =
           [SelectFrom projects_table, SelectFrom projects_table,
            InsertInto projects_table (js ''GFA 1'') None, SelectFrom projects_table]
       \<and> requests_made w1 w2 =
           [SelectFrom projects_table, SelectFrom projects_table,
            InsertInto projects_table (js ''GFA 1'') None, SelectFrom projects_table]
       \<and> db w1 = db name_taken \<and> db w2 = db name_taken"
    by (simp add: ensureProject_quiet name_taken_eval insert_project_cases one_scenario_def
          getModulePrefix_def requests_made_def Let_def js_def)
  show "map_option (\<lambda>p. (p_name p, p_tool_type p)) (fst (ensureProject_legacy 7 gfa name_taken))
       = Some (js ''Project 1'', gfa)"
    by (simp add: ensureProject_legacy_quiet name_taken_eval one_scenario_def Let_def name_eval)
qed

subsection \<open>Result numbers\<close>

lemma insert_output_cases:
  "insert_output pid sid m name n me out v s =
     (if 2147483647 < n
      then Inl (PgError ''22003'')
      else if list_ex (\<lambda>r. r_scenario_id r = sid \<and> (r_name r = name \<or> r_result_number r = n))
           (scenario_outputs s)
      then Inl unique_violation
      else if \<not> list_ex (\<lambda>p. p_id p = pid) (projects s)
      then Inl (PgError ''23503'')
      else Inr (\<lparr>r_id = next_uuid s, r_project_id = pid, r_scenario_id = sid,
                  r_module_type = m, r_name = name, r_result_number = n, r_metrics = me,
                  r_output_data = out, r_version = v, r_created_at = clock s\<rparr>,
                s\<lparr>scenario_outputs := scenario_outputs s @
                    [\<lparr>r_id = next_uuid s, r_project_id = pid, r_scenario_id = sid,
                      r_module_type = m, r_name = name, r_result_number = n, r_metrics = me,
                      r_output_data = out, r_version = v, r_created_at = clock s\<rparr>],
                  next_uuid := Suc (next_uuid s), clock := Suc (clock s)\<rparr>))"
  by (simp add: insert_output_def Let_def)

lemma order_desc_hd_greatest:
  assumes "order_desc column rows = x # xs" and "r \<in> set rows"
  shows "column r \<le> column x"
proof -
  have "sorted_wrt (\<lambda>a b. column b \<le> column a) (x # xs)"
    using order_desc_sorted [of column rows] assms(1) by simp
  moreover have "r \<in> set (x # xs)"
    using assms by (metis set_order_desc)
  ultimately show ?thesis by auto
qed

lemma order_desc_hd_Max:
  assumes "order_desc column rows = x # xs"
  shows "column x = Max (column ` set rows)"
proof -
  have "x \<in> set rows"
    using assms by (metis list.set_intros(1) set_order_desc)
  then show ?thesis
    using order_desc_hd_greatest [OF assms]
    by (intro Max_eqI [symmetric]) auto
qed

lemma next_number_Max:
  "next_number rs = (if rs = [] then 1 else Max (r_result_number ` set rs) + 1)"
proof (cases "order_desc r_result_number rs")
  case Nil
  then show ?thesis by (simp add: next_number_def)
next
  case (Cons x xs)
  then have "rs \<noteq> []" by auto
  with Cons order_desc_hd_Max [OF Cons] show ?thesis
    by (simp add: next_number_def)
qed

lemma next_number_greater:
  assumes "r \<in> set rs"
  shows "r_result_number r < next_number rs"
proof (cases "order_desc r_result_number rs")
  case Nil
  with assms show ?thesis by simp
next
  case (Cons x xs)
  from order_desc_hd_greatest [OF Cons assms] Cons show ?thesis
    by (simp add: next_number_def)
qed

lemma next_number_in_range:
  assumes "list_all (\<lambda>r. r_result_number r < 2147483647) rs"
  shows "next_number rs \<le> 2147483647"
proof (cases "order_desc r_result_number rs")
  case Nil
  then show ?thesis by (simp add: next_number_def)
next
  case (Cons x xs)
  then have "x \<in> set rs"
    by (metis list.set_intros(1) set_order_desc)
  with assms have "r_result_number x < 2147483647"
    by (simp add: list_all_iff)
  with Cons show ?thesis
    by (simp add: next_number_def)
qed

text \<open>
  \<open>createResult\<close> when no other client writes, the project of the request is in the store
  and the numbers of the scenario are below the greatest \<^verbatim>\<open>INTEGER\<close>.
\<close>

lemma createResult_quiet:
  assumes "concurrent w = []"
    and "list_ex (\<lambda>p. p_id p = cp_projectId params) (projects (db w))"
    and "list_all (\<lambda>r. r_result_number r < 2147483647)
           (filter (\<lambda>r. r_scenario_id r = cp_scenarioId params) (scenario_outputs (db w)))"
  shows "createResult params w =
    (let rs = filter (\<lambda>r. r_scenario_id r = cp_scenarioId params) (scenario_outputs (db w));
         name = name_for (map r_name rs) Result;
         row = \<lparr>r_id = next_uuid (db w), r_project_id = cp_projectId params,
                 r_scenario_id = cp_scenarioId params, r_module_type = cp_moduleType params,
                 r_name = name, r_result_number = next_number rs,
                 r_metrics = cp_metrics params, r_output_data = cp_payload params,
                 r_version = 1, r_created_at = clock (db w)\<rparr>
     in (Some (r_id row, r_name row, r_created_at row),
         w\<lparr>calls := calls w @ [SelectFrom scenario_outputs_table, SelectFrom scenario_outputs_table,
                                 InsertInto scenario_outputs_table name (Some (next_number rs))],
           db := (db w)\<lparr>scenario_outputs := scenario_outputs (db w) @ [row],
                         next_uuid := Suc (next_uuid (db w)),
                         clock := Suc (clock (db w))\<rparr>\<rparr>))"
proof -
  let ?rs = "filter (\<lambda>r. r_scenario_id r = cp_scenarioId params) (scenario_outputs (db w))"
  let ?name = "name_for (map r_name ?rs) Result"
  have free: "\<not> list_ex (\<lambda>r. r_scenario_id r = cp_scenarioId params
                    \<and> (r_name r = ?name \<or> r_result_number r = next_number ?rs))
                 (scenario_outputs (db w))"
  proof
    assume "list_ex (\<lambda>r. r_scenario_id r = cp_scenarioId params
                    \<and> (r_name r = ?name \<or> r_result_number r = next_number ?rs))
                 (scenario_outputs (db w))"
    then obtain r where r: "r \<in> set ?rs"
      and clash: "r_name r = ?name \<or> r_result_number r = next_number ?rs"
      by (auto simp: list_ex_iff)
    from clash show False
    proof
      assume "r_name r = ?name"
      with r have "?name \<in> set (map r_name ?rs)" by force
      then show False using name_for_fresh by blast
    next
      assume "r_result_number r = next_number ?rs"
      with next_number_greater [OF r] show False by simp
    qed
  qed
  have fits: "\<not> 2147483647 < next_number ?rs"
    using next_number_in_range [OF assms(3)] by simp
  show ?thesis
    using assms(1,2) free fits
    unfolding next_number_def
    by (simp add: createResult_def select_rows_quiet Let_def nextAutoName_split
          insert_row_quiet insert_output_cases created_def)
qed

lemma after_delete_simps [simp]:
  "concurrent (after_delete rid w) = concurrent w"
  "scenario_outputs (db (after_delete rid w)) = filter (\<lambda>r. r_id r \<noteq> rid) (scenario_outputs (db w))"
  "projects (db (after_delete rid w)) = projects (db w)"
  "next_uuid (db (after_delete rid w)) = next_uuid (db w)"
  "clock (db (after_delete rid w)) = clock (db w)"
  by (simp_all add: after_delete_def delete_output_def)

text \<open>The world after three results were created in sequence.\<close>

lemma three_results_eval:
  "concurrent three_results = []"
  "projects (db three_results) = projects one_scenario"
  "next_uuid (db three_results) = 6"
  "clock (db three_results) = 5"
  "scenario_outputs (db three_results) =
     [\<lparr>r_id = 3, r_project_id = 1, r_scenario_id = 2, r_module_type = js ''forecasting'',
       r_name = js ''Result 1'', r_result_number = 1, r_metrics = JObj [], r_output_data = JNull,
       r_version = 1, r_created_at = 2\<rparr>,
      \<lparr>r_id = 4, r_project_id = 1, r_scenario_id = 2, r_module_type = js ''forecasting'',
       r_name = js ''Result 2'', r_result_number = 2, r_metrics = JObj [], r_output_data = JNull,
       r_version = 1, r_created_at = 3\<rparr>,
      \<lparr>r_id = 5, r_project_id = 1, r_scenario_id = 2, r_module_type = js ''forecasting'',
       r_name = js ''Result 3'', r_result_number = 3, r_metrics = JObj [], r_output_data = JNull,
       r_version = 1, r_created_at = 4\<rparr>]"
proof -
  define w1 where "w1 = snd (createResult params0 (client one_scenario []))"
  define w2 where "w2 = snd (createResult params0 w1)"
  have w1: "concurrent w1 = []" "projects (db w1) = projects one_scenario"
    "next_uuid (db w1) = 4" "clock (db w1) = 3"
    "scenario_outputs (db w1) =
       [\<lparr>r_id = 3, r_project_id = 1, r_scenario_id = 2, r_module_type = js ''forecasting'',
         r_name = js ''Result 1'', r_result_number = 1, r_metrics = JObj [], r_output_data = JNull,
         r_version = 1, r_created_at = 2\<rparr>]"
    unfolding w1_def
    by (simp_all add: createResult_quiet Let_def client_def one_scenario_def params0_def
          name_eval order_eval)
  have w2: "concurrent w2 = []" "projects (db w2) = projects one_scenario"
    "next_uuid (db w2) = 5" "clock (db w2) = 4"
    "scenario_outputs (db w2) = scenario_outputs (db w1) @
       [\<lparr>r_id = 4, r_project_id = 1, r_scenario_id = 2, r_module_type = js ''forecasting'',
         r_name = js ''Result 2'', r_result_number = 2, r_metrics = JObj [], r_output_data = JNull,
         r_version = 1, r_created_at = 3\<rparr>]"
    unfolding w2_def
    by (simp_all add: createResult_quiet w1 Let_def one_scenario_def params0_def
          name_eval order_eval)
  have w3: "three_results = snd (createResult params0 w2)"
    by (simp add: three_results_def w1_def w2_def)
  show "concurrent three_results = []" "projects (db three_results) = projects one_scenario"
    "next_uuid (db three_results) = 6" "clock (db three_results) = 5"
    unfolding w3
    by (simp_all add: createResult_quiet w2 w1 Let_def one_scenario_def params0_def)
  show "scenario_outputs (db three_results) =
     [\<lparr>r_id = 3, r_project_id = 1, r_scenario_id = 2, r_module_type = js ''forecasting'',
       r_name = js ''Result 1'', r_result_number = 1, r_metrics = JObj [], r_output_data = JNull,
       r_version = 1, r_created_at = 2\<rparr>,
      \<lparr>r_id = 4, r_project_id = 1, r_scenario_id = 2, r_module_type = js ''forecasting'',
       r_name = js ''Result 2'', r_result_number = 2, r_metrics = JObj [], r_output_data = JNull,
       r_version = 1, r_created_at = 3\<rparr>,
      \<lparr>r_id = 5, r_project_id = 1, r_scenario_id = 2, r_module_type = js ''forecasting'',
       r_name = js ''Result 3'', r_result_number = 3, r_metrics = JObj [], r_output_data = JNull,
       r_version = 1, r_created_at = 4\<rparr>]"
    unfolding w3
    by (simp add: createResult_quiet w2 w1 Let_def one_scenario_def params0_def
          name_eval order_eval)
qed

text \<open>
  The claim C3 as stated fails: after results 1, 2 and 3 were created and the result with
  number 3 (the row with identifier 5) was deleted, the next result is given number 3 again.
\<close>

theorem createResult_reuses_number_counterexample:
  "map (\<lambda>r. (r_id r, r_result_number r)) (scenario_outputs (db three_results))
       = [(3, 1), (4, 2), (5, 3)]
   \<and> map (\<lambda>r. (r_id r, r_name r, r_result_number r))
        (scenario_outputs (db (snd (createResult params0 (after_delete 5 three_results)))))
       = [(3, js ''Result 1'', 1), (4, js ''Result 2'', 2), (6, js ''Result 3'', 3)]"
  by (simp add: three_results_eval createResult_quiet Let_def one_scenario_def
        params0_def name_eval order_eval)

lemma createResult_appends:
  assumes "concurrent w = []"
    and "list_ex (\<lambda>p. p_id p = cp_projectId params) (projects (db w))"
    and "list_all (\<lambda>r. r_result_number r < 2147483647)
           (filter (\<lambda>r. r_scenario_id r = cp_scenarioId params) (scenario_outputs (db w)))"
  shows "\<exists>row. fst (createResult params w) = Some (r_id row, r_name row, r_created_at row)
           \<and> scenario_outputs (db (snd (createResult params w))) = scenario_outputs (db w) @ [row]
           \<and> r_scenario_id row = cp_scenarioId params
           \<and> r_result_number row =
               next_number (filter (\<lambda>r. r_scenario_id r = cp_scenarioId params)
                              (scenario_outputs (db w)))"
  using assms by (simp add: createResult_quiet Let_def)

text \<open>The scenario 2 after the results 1, 2, 3 and the deletion of result 2.\<close>

lemma createResult_after_gap:
  "map (\<lambda>r. (r_name r, r_result_number r))
        (scenario_outputs (db (snd (createResult params0 (after_delete 4 three_results)))))
       = [(js ''Result 1'', 1), (js ''Result 3'', 3), (js ''Result 2'', 4)]"
  by (simp add: three_results_eval createResult_quiet Let_def one_scenario_def
        params0_def name_eval order_eval)

text \<open>
  Claim C3, amended. With no other client writing, the project of the request in the
  store and the numbers of the scenario below the greatest \<^verbatim>\<open>INTEGER\<close>, \<open>createResult\<close>
  succeeds and appends a row for the scenario whose number is the maximum of the
  scenario's existing numbers plus one, or 1 when there are none; the number is greater
  than every number the scenario holds. So after a result is deleted, its number is not
  given by the next \<open>createResult\<close> as long as the scenario keeps a result with a number
  at least as large: after 1, 2, 3 and the deletion of 2, the next number is 4, not 2.
\<close>

theorem createResult_max_plus_one:
  assumes quiet: "concurrent w = []"
    and project: "list_ex (\<lambda>p. p_id p = cp_projectId params) (projects (db w))"
    and range: "list_all (\<lambda>r. r_result_number r < 2147483647)
                  (filter (\<lambda>r. r_scenario_id r = cp_scenarioId params)
                     (scenario_outputs (db w)))"
  shows "(let rs = filter (\<lambda>r. r_scenario_id r = cp_scenarioId params) (scenario_outputs (db w))
          in \<exists>row. fst (createResult params w) = Some (r_id row, r_name row, r_created_at row)
               \<and> scenario_outputs (db (snd (createResult params w)))
                     = scenario_outputs (db w) @ [row]
               \<and> r_scenario_id row = cp_scenarioId params
               \<and> r_result_number row
                     = (if rs = [] then 1 else Max (r_result_number ` set rs) + 1)
               \<and> list_all (\<lambda>r. r_result_number r < r_result_number row) rs)
       \<and> (d \<in> set (scenario_outputs (db w)) \<and> kept \<in> set (scenario_outputs (db w))
            \<and> r_id kept \<noteq> r_id d \<and> r_scenario_id kept = cp_scenarioId params
            \<and> r_result_number d \<le> r_result_number kept
          \<longrightarrow> r_result_number d
                < r_result_number (last (scenario_outputs
                    (db (snd (createResult params (after_delete (r_id d) w)))))))
       \<and> map r_result_number (scenario_outputs (db three_results)) = [1, 2, 3]
       \<and> map (\<lambda>r. (r_name r, r_result_number r))
            (scenario_outputs (db (snd (createResult params0
               (after_delete (r_id (scenario_outputs (db three_results) ! 1)) three_results)))))
           = [(js ''Result 1'', 1), (js ''Result 3'', 3), (js ''Result 2'', 4)]"
proof (intro conjI impI)
  let ?rs = "filter (\<lambda>r. r_scenario_id r = cp_scenarioId params) (scenario_outputs (db w))"
  from createResult_appends [OF quiet project range] obtain row where
    row: "fst (createResult params w) = Some (r_id row, r_name row, r_created_at row)"
      "scenario_outputs (db (snd (createResult params w))) = scenario_outputs (db w) @ [row]"
      "r_scenario_id row = cp_scenarioId params"
      "r_result_number row = next_number ?rs"
    by blast
  have "list_all (\<lambda>r. r_result_number r < r_result_number row) ?rs"
    unfolding list_all_iff row(4) using next_number_greater by blast
  with row show "let rs = ?rs
          in \<exists>row. fst (createResult params w) = Some (r_id row, r_name row, r_created_at row)
               \<and> scenario_outputs (db (snd (createResult params w)))
                     = scenario_outputs (db w) @ [row]
               \<and> r_scenario_id row = cp_scenarioId params
               \<and> r_result_number row
                     = (if rs = [] then 1 else Max (r_result_number ` set rs) + 1)
               \<and> list_all (\<lambda>r. r_result_number r < r_result_number row) rs"
    unfolding Let_def next_number_Max [symmetric] by blast
next
  assume a: "d \<in> set (scenario_outputs (db w)) \<and> kept \<in> set (scenario_outputs (db w))
            \<and> r_id kept \<noteq> r_id d \<and> r_scenario_id kept = cp_scenarioId params
            \<and> r_result_number d \<le> r_result_number kept"
  define w' where "w' = after_delete (r_id d) w"
  have q': "concurrent w' = []"
    and p': "list_ex (\<lambda>p. p_id p = cp_projectId params) (projects (db w'))"
    and rows': "scenario_outputs (db w') = filter (\<lambda>r. r_id r \<noteq> r_id d) (scenario_outputs (db w))"
    using quiet project by (simp_all add: w'_def)
  let ?rs' = "filter (\<lambda>r. r_scenario_id r = cp_scenarioId params) (scenario_outputs (db w'))"
  have r': "list_all (\<lambda>r. r_result_number r < 2147483647) ?rs'"
    using range by (auto simp: rows' list_all_iff)
  from createResult_appends [OF q' p' r'] obtain row where
    row: "scenario_outputs (db (snd (createResult params w'))) = scenario_outputs (db w') @ [row]"
      "r_result_number row = next_number ?rs'"
    by blast
  from a have "kept \<in> set ?rs'"
    by (simp add: rows')
  then have "r_result_number kept < next_number ?rs'"
    by (rule next_number_greater)
  with a row show "r_result_number d
                < r_result_number (last (scenario_outputs
                    (db (snd (createResult params (after_delete (r_id d) w))))))"
    by (simp add: w'_def [symmetric])
next
  show "map r_result_number (scenario_outputs (db three_results)) = [1, 2, 3]"
    by (simp add: three_results_eval)
  have "r_id (scenario_outputs (db three_results) ! 1) = 4"
    by (simp add: three_results_eval)
  with createResult_after_gap
  show "map (\<lambda>r. (r_name r, r_result_number r))
            (scenario_outputs (db (snd (createResult params0
               (after_delete (r_id (scenario_outputs (db three_results) ! 1)) three_results)))))
           = [(js ''Result 1'', 1), (js ''Result 3'', 3), (js ''Result 2'', 4)]"
    by simp
qed

theorem createResult_max_plus_one_witness:
  "concurrent three_results = []
   \<and> list_ex (\<lambda>p. p_id p = cp_projectId params0) (projects (db three_results))
   \<and> map r_result_number (filter (\<lambda>r. r_scenario_id r = cp_scenarioId params0)
          (scenario_outputs (db three_results))) = [1, 2, 3]
   \<and> (\<exists>row. fst (createResult params0 three_results)
                 = Some (r_id row, r_name row, r_created_at row)
          \<and> scenario_outputs (db (snd (createResult params0 three_results)))
              = scenario_outputs (db three_results) @ [row]
          \<and> r_result_number row = 4)
   \<and> 2 < r_result_number (last (scenario_outputs
              (db (snd (createResult params0 (after_delete 4 three_results))))))"
proof -
  let ?d = "scenario_outputs (db three_results) ! 1"
  let ?kept = "scenario_outputs (db three_results) ! 2"
  have p: "list_ex (\<lambda>p. p_id p = cp_projectId params0) (projects (db three_results))"
    by (simp add: three_results_eval one_scenario_def params0_def)
  have n: "map r_result_number (filter (\<lambda>r. r_scenario_id r = cp_scenarioId params0)
          (scenario_outputs (db three_results))) = [1, 2, 3]"
    by (simp add: three_results_eval params0_def)
  have r: "list_all (\<lambda>r. r_result_number r < 2147483647)
             (filter (\<lambda>r. r_scenario_id r = cp_scenarioId params0)
                (scenario_outputs (db three_results)))"
    by (simp add: three_results_eval params0_def)
  have m: "Max (r_result_number ` set (filter (\<lambda>r. r_scenario_id r = cp_scenarioId params0)
             (scenario_outputs (db three_results)))) = 3"
    by (simp add: three_results_eval params0_def)
  have ne: "filter (\<lambda>r. r_scenario_id r = cp_scenarioId params0)
             (scenario_outputs (db three_results)) \<noteq> []"
    by (simp add: three_results_eval params0_def)
  note inst = createResult_max_plus_one [OF three_results_eval(1) p r, of ?d ?kept]
  from inst have first: "\<exists>row. fst (createResult params0 three_results)
                 = Some (r_id row, r_name row, r_created_at row)
          \<and> scenario_outputs (db (snd (createResult params0 three_results)))
              = scenario_outputs (db three_results) @ [row]
          \<and> r_result_number row = 4"
    unfolding Let_def m using ne by auto
  from inst have "2 < r_result_number (last (scenario_outputs
              (db (snd (createResult params0 (after_delete 4 three_results))))))"
    by (simp add: three_results_eval params0_def)
  with first p n three_results_eval(1) show ?thesis
    by simp
qed

subsection \<open>\<open>createResult\<close> under a race\<close>

text \<open>\<open>createResult\<close> as a sequence of requests, in any world.\<close>

lemma createResult_steps:
  "createResult params w =
    (let w1 = enter (SelectFrom scenario_outputs_table) w;
         n = next_number (filter (\<lambda>r. r_scenario_id r = cp_scenarioId params)
                            (scenario_outputs (db w1)));
         w2 = enter (SelectFrom scenario_outputs_table) w1;
         name = name_for (map r_name (filter (\<lambda>r. r_scenario_id r = cp_scenarioId params)
                            (scenario_outputs (db w2)))) Result;
         w3 = enter (InsertInto scenario_outputs_table name (Some n)) w2
     in case insert_output (cp_projectId params) (cp_scenarioId params) (cp_moduleType params)
               name n (cp_metrics params) (cp_payload params) 1 (db w3) of
          Inr (row, s') \<Rightarrow> (Some (r_id row, r_name row, r_created_at row), w3\<lparr>db := s'\<rparr>)
        | Inl e \<Rightarrow>
            if code e = ''23505''
            then (let w4 = enter (SelectFrom scenario_outputs_table) w3;
                      retryName = name_for (map r_name
                         (filter (\<lambda>r. r_scenario_id r = cp_scenarioId params)
                            (scenario_outputs (db w4)))) Result;
                      w5 = enter (InsertInto scenario_outputs_table retryName (Some n)) w4
                  in case insert_output (cp_projectId params) (cp_scenarioId params)
                            (cp_moduleType params) retryName n (cp_metrics params)
                            (cp_payload params) 1 (db w5) of
                       Inr (row, s') \<Rightarrow>
                         (Some (r_id row, r_name row, r_created_at row), w5\<lparr>db := s'\<rparr>)
                     | Inl e' \<Rightarrow> (None, w5))
            else (None, w3))"
  unfolding next_number_def
  by (simp add: createResult_def select_rows_def insert_row_def nextAutoName_split Let_def
        created_def split: sum.split)

lemma createResult_requests:
  "(\<exists>name n. requests_made w (snd (createResult params w)) =
       [SelectFrom scenario_outputs_table, SelectFrom scenario_outputs_table,
        InsertInto scenario_outputs_table name (Some n)])
   \<or> (\<exists>name retryName n. requests_made w (snd (createResult params w)) =
       [SelectFrom scenario_outputs_table, SelectFrom scenario_outputs_table,
        InsertInto scenario_outputs_table name (Some n), SelectFrom scenario_outputs_table,
        InsertInto scenario_outputs_table retryName (Some n)])"
  unfolding createResult_steps Let_def requests_made_def
  by (simp split: sum.split prod.split)

text \<open>
  Claim C4. In every world \<open>createResult\<close> sends one insert, or two when the first is
  rejected, and never a third; but the second insert carries the same result number as
  the first, not a number computed anew. At a race where another client creates
  \<open>Result 1\<close> with number 1 between this client's reads and its insert, the first insert
  is rejected; the retry computes the name again (\<open>Result 2\<close>) and sends the number 1 that
  was computed before the first insert, although the scenario now holds number 1 and a
  fresh computation gives 2. The retry is rejected as well and \<open>createResult\<close> returns null.
\<close>

theorem createResult_retry_keeps_number:
  "((\<exists>name n. requests_made w (snd (createResult params w)) =
        [SelectFrom scenario_outputs_table, SelectFrom scenario_outputs_table,
         InsertInto scenario_outputs_table name (Some n)])
     \<or> (\<exists>name retryName n. requests_made w (snd (createResult params w)) =
        [SelectFrom scenario_outputs_table, SelectFrom scenario_outputs_table,
         InsertInto scenario_outputs_table name (Some n), SelectFrom scenario_outputs_table,
         InsertInto scenario_outputs_table retryName (Some n)]))
   \<and> fst (createResult params0 race_on_result) = None
   \<and> calls (snd (createResult params0 race_on_result)) =
       [SelectFrom scenario_outputs_table, SelectFrom scenario_outputs_table,
        InsertInto scenario_outputs_table (js ''Result 1'') (Some 1),
        SelectFrom scenario_outputs_table,
        InsertInto scenario_outputs_table (js ''Result 2'') (Some 1)]
   \<and> map (\<lambda>r. (r_name r, r_result_number r))
        (scenario_outputs (db (snd (createResult params0 race_on_result))))
       = [(js ''Result 1'', 1)]
   \<and> next_number (filter (\<lambda>r. r_scenario_id r = 2)
        (scenario_outputs (db (snd (createResult params0 race_on_result))))) = 2"
proof (intro conjI)
  show "(\<exists>name n. requests_made w (snd (createResult params w)) =
        [SelectFrom scenario_outputs_table, SelectFrom scenario_outputs_table,
         InsertInto scenario_outputs_table name (Some n)])
     \<or> (\<exists>name retryName n. requests_made w (snd (createResult params w)) =
        [SelectFrom scenario_outputs_table, SelectFrom scenario_outputs_table,
         InsertInto scenario_outputs_table name (Some n), SelectFrom scenario_outputs_table,
         InsertInto scenario_outputs_table retryName (Some n)])"
    by (rule createResult_requests)
qed (simp_all add: createResult_def race_on_result_def params0_def world_eval name_eval order_eval
       nextAutoName_split created_def)

subsection \<open>The ensure workflows under a race\<close>

text \<open>The three workflows as sequences of requests, in any world.\<close>

lemma ensureProject_steps:
  "ensureProject u t w =
    (let w1 = enter (SelectFrom projects_table) w
     in case filter (\<lambda>p. p_user_id p = u \<and> p_tool_type p = t) (projects (db w1)) of
          r # rs \<Rightarrow> (Some r, w1)
        | [] \<Rightarrow>
           (let w2 = enter (SelectFrom projects_table) w1;
                name = name_for (map p_name (filter (\<lambda>p. p_user_id p = u \<and> p_tool_type p = t)
                                   (projects (db w2)))) (getModulePrefix t);
                w3 = enter (InsertInto projects_table name None) w2
            in if list_ex (\<lambda>p. p_user_id p = u \<and> p_name p = name) (projects (db w3))
               then (let w4 = enter (SelectFrom projects_table) w3
                     in (case filter (\<lambda>p. p_user_id p = u \<and> p_tool_type p = t)
                                (projects (db w4)) of
                           [] \<Rightarrow> None | p # ps \<Rightarrow> Some p, w4))
               else (let row = \<lparr>p_id = next_uuid (db w3), p_user_id = u, p_name = name,
                                 p_description = None, p_tool_type = t, p_input_data = JObj [],
                                 p_results_data = JObj [], p_size_mb = 0,
                                 p_created_at = clock (db w3), p_updated_at = clock (db w3)\<rparr>
                     in (Some row,
                         w3\<lparr>db := (db w3)\<lparr>projects := projects (db w3) @ [row],
                                          next_uuid := Suc (next_uuid (db w3)),
                                          clock := Suc (clock (db w3))\<rparr>\<rparr>))))"
  by (simp add: ensureProject_def select_rows_def insert_row_def nextAutoName_split Let_def
        insert_project_cases unique_violation_def split: list.split)

lemma insert_scenario_cases:
  "insert_scenario pid uid m name d st s =
     (if list_ex (\<lambda>c. s_project_id c = pid \<and> s_module_type c = m \<and> s_name c = name)
           (scenarios s)
      then Inl unique_violation
      else Inr (\<lparr>s_id = next_uuid s, s_project_id = pid, s_user_id = uid, s_module_type = m,
                  s_name = name, s_description = d, s_status = st, s_created_at = clock s,
                  s_updated_at = clock s\<rparr>,
                s\<lparr>scenarios := scenarios s @
                    [\<lparr>s_id = next_uuid s, s_project_id = pid, s_user_id = uid,
                      s_module_type = m, s_name = name, s_description = d, s_status = st,
                      s_created_at = clock s, s_updated_at = clock s\<rparr>],
                  next_uuid := Suc (next_uuid s), clock := Suc (clock s)\<rparr>))"
  by (simp add: insert_scenario_def Let_def)

lemma ensureScenario_steps:
  "ensureScenario pid uid m w =
    (let w1 = enter (SelectFrom scenarios_table) w
     in case order_desc s_updated_at
               (filter (\<lambda>c. s_project_id c = pid \<and> s_module_type c = m) (scenarios (db w1))) of
          r # rs \<Rightarrow> (Some r, w1)
        | [] \<Rightarrow>
           (let w2 = enter (SelectFrom scenarios_table) w1;
                name = name_for (map s_name (filter (\<lambda>c. s_project_id c = pid \<and> s_module_type c = m)
                                   (scenarios (db w2)))) Scenario;
                w3 = enter (InsertInto scenarios_table name None) w2
            in if list_ex (\<lambda>c. s_project_id c = pid \<and> s_module_type c = m \<and> s_name c = name)
                    (scenarios (db w3))
               then (let w4 = enter (SelectFrom scenarios_table) w3;
                         retryName = name_for (map s_name
                            (filter (\<lambda>c. s_project_id c = pid \<and> s_module_type c = m)
                               (scenarios (db w4)))) Scenario;
                         w5 = enter (InsertInto scenarios_table retryName None) w4
                     in if list_ex (\<lambda>c. s_project_id c = pid \<and> s_module_type c = m
                                         \<and> s_name c = retryName) (scenarios (db w5))
                        then (None, w5)
                        else (let row = \<lparr>s_id = next_uuid (db w5), s_project_id = pid,
                                  s_user_id = uid, s_module_type = m, s_name = retryName,
                                  s_description = None, s_status = pending,
                                  s_created_at = clock (db w5), s_updated_at = clock (db w5)\<rparr>
                              in (Some row,
                                  w5\<lparr>db := (db w5)\<lparr>scenarios := scenarios (db w5) @ [row],
                                                   next_uuid := Suc (next_uuid (db w5)),
                                                   clock := Suc (clock (db w5))\<rparr>\<rparr>)))
               else (let row = \<lparr>s_id = next_uuid (db w3), s_project_id = pid, s_user_id = uid,
                                 s_module_type = m, s_name = name, s_description = None,
                                 s_status = pending, s_created_at = clock (db w3),
                                 s_updated_at = clock (db w3)\<rparr>
                     in (Some row,
                         w3\<lparr>db := (db w3)\<lparr>scenarios := scenarios (db w3) @ [row],
                                          next_uuid := Suc (next_uuid (db w3)),
                                          clock := Suc (clock (db w3))\<rparr>\<rparr>))))"
  by (simp add: ensureScenario_def select_rows_def insert_row_def nextAutoName_split Let_def
        insert_scenario_cases unique_violation_def split: list.split)

lemma ensureProject_legacy_steps:
  "ensureProject_legacy u t w =
    (let w1 = enter (SelectFrom projects_table) w
     in case order_desc p_updated_at
               (filter (\<lambda>p. p_user_id p = u \<and> p_tool_type p = t) (projects (db w1))) of
          r # rs \<Rightarrow> (Some r, w1)
        | [] \<Rightarrow>
           (let w2 = enter (SelectFrom projects_table) w1;
                name = name_for (map p_name (filter (\<lambda>p. p_user_id p = u) (projects (db w2))))
                         Project;
                w3 = enter (InsertInto projects_table name None) w2
            in if list_ex (\<lambda>p. p_user_id p = u \<and> p_name p = name) (projects (db w3))
               then (let w4 = enter (SelectFrom projects_table) w3;
                         retryName = name_for (map p_name
                            (filter (\<lambda>p. p_user_id p = u) (projects (db w4)))) Project;
                         w5 = enter (InsertInto projects_table retryName None) w4
                     in if list_ex (\<lambda>p. p_user_id p = u \<and> p_name p = retryName)
                             (projects (db w5))
                        then (None, w5)
                        else (let row = \<lparr>p_id = next_uuid (db w5), p_user_id = u,
                                  p_name = retryName, p_description = None, p_tool_type = t,
                                  p_input_data = JObj [], p_results_data = JObj [], p_size_mb = 0,
                                  p_created_at = clock (db w5), p_updated_at = clock (db w5)\<rparr>
                              in (Some row,
                                  w5\<lparr>db := (db w5)\<lparr>projects := projects (db w5) @ [row],
                                                   next_uuid := Suc (next_uuid (db w5)),
                                                   clock := Suc (clock (db w5))\<rparr>\<rparr>)))
               else (let row = \<lparr>p_id = next_uuid (db w3), p_user_id = u, p_name = name,
                                 p_description = None, p_tool_type = t, p_input_data = JObj [],
                                 p_results_data = JObj [], p_size_mb = 0,
                                 p_created_at = clock (db w3), p_updated_at = clock (db w3)\<rparr>
                     in (Some row,
                         w3\<lparr>db := (db w3)\<lparr>projects := projects (db w3) @ [row],
                                          next_uuid := Suc (next_uuid (db w3)),
                                          clock := Suc (clock (db w3))\<rparr>\<rparr>))))"
  by (simp add: ensureProject_legacy_def select_rows_def insert_row_def nextAutoName_split Let_def
        insert_project_cases unique_violation_def split: list.split)

text \<open>
  Claim C2. The claim fails on \<open>ensureScenario\<close> and on \<open>ensureProject\<close> in the older
  revision (src/lib/data/projects.ts). In every world each of them sends one select, or
  two selects and one insert, or, when that insert is rejected with a unique violation,
  a further select of the names and a second insert. At a race in which another client
  creates \<open>Scenario 1\<close> in the same project and module just before this client's insert,
  \<open>ensureScenario\<close> has its insert rejected, inserts \<open>Scenario 2\<close> and returns it: the module
  ends with two scenarios, and the one returned is not the one that existed. The older
  \<open>ensureProject\<close> does the same with \<open>Project 1\<close> and \<open>Project 2\<close>. At the same race
  \<open>ensureProject\<close> in the revision of src/lib/naming.ts does what the claim says: after the
  rejected insert it selects the projects of the user and the tool again and returns the
  project that the other client created.
\<close>

theorem ensureScenario_inserts_again:
  "(let made = requests_made ws (snd (ensureScenario pid uid m ws))
    in made = [SelectFrom scenarios_table]
     \<or> (\<exists>name. made = [SelectFrom scenarios_table, SelectFrom scenarios_table,
                         InsertInto scenarios_table name None])
     \<or> (\<exists>name retryName.
            made = [SelectFrom scenarios_table, SelectFrom scenarios_table,
                    InsertInto scenarios_table name None, SelectFrom scenarios_table,
                    InsertInto scenarios_table retryName None]))
   \<and> (let made = requests_made wl (snd (ensureProject_legacy u t wl))
      in made = [SelectFrom projects_table]
       \<or> (\<exists>name. made = [SelectFrom projects_table, SelectFrom projects_table,
                           InsertInto projects_table name None])
       \<or> (\<exists>name retryName.
              made = [SelectFrom projects_table, SelectFrom projects_table,
                      InsertInto projects_table name None, SelectFrom projects_table,
                      InsertInto projects_table retryName None]))
   \<and> (requests_made race_on_scenario (snd (ensureScenario 1 7 gfa race_on_scenario)) =
         [SelectFrom scenarios_table, SelectFrom scenarios_table,
          InsertInto scenarios_table (js ''Scenario 1'') None, SelectFrom scenarios_table,
          InsertInto scenarios_table (js ''Scenario 2'') None]
      \<and> map (\<lambda>c. (s_id c, s_project_id c, s_module_type c, s_name c))
           (scenarios (db (snd (ensureScenario 1 7 gfa race_on_scenario))))
          = [(2, 1, forecasting, js ''Scenario 1''), (3, 1, gfa, js ''Scenario 1''),
             (4, 1, gfa, js ''Scenario 2'')]
      \<and> map_option (\<lambda>c. (s_id c, s_name c)) (fst (ensureScenario 1 7 gfa race_on_scenario))
          = Some (4, js ''Scenario 2''))
   \<and> (requests_made race_on_legacy_project
           (snd (ensureProject_legacy 7 gfa race_on_legacy_project)) =
         [SelectFrom projects_table, SelectFrom projects_table,
          InsertInto projects_table (js ''Project 1'') None, SelectFrom projects_table,
          InsertInto projects_table (js ''Project 2'') None]
      \<and> map (\<lambda>p. (p_id p, p_user_id p, p_tool_type p, p_name p))
           (projects (db (snd (ensureProject_legacy 7 gfa race_on_legacy_project))))
          = [(1, 7, forecasting, js ''DF 1''), (3, 7, gfa, js ''Project 1''),
             (4, 7, gfa, js ''Project 2'')]
      \<and> map_option (\<lambda>p. (p_id p, p_name p))
             (fst (ensureProject_legacy 7 gfa race_on_legacy_project))
          = Some (4, js ''Project 2''))
   \<and> (requests_made race_on_project (snd (ensureProject 7 gfa race_on_project)) =
         [SelectFrom projects_table, SelectFrom projects_table,
          InsertInto projects_table (js ''GFA 1'') None, SelectFrom projects_table]
      \<and> map (\<lambda>p. (p_id p, p_user_id p, p_tool_type p, p_name p))
           (projects (db (snd (ensureProject 7 gfa race_on_project))))
          = [(1, 7, forecasting, js ''DF 1''), (3, 7, gfa, js ''GFA 1'')]
      \<and> map_option (\<lambda>p. (p_id p, p_name p)) (fst (ensureProject 7 gfa race_on_project))
          = Some (3, js ''GFA 1''))"
proof (intro conjI)
  show "let made = requests_made ws (snd (ensureScenario pid uid m ws))
    in made = [SelectFrom scenarios_table]
     \<or> (\<exists>name. made = [SelectFrom scenarios_table, SelectFrom scenarios_table,
                         InsertInto scenarios_table name None])
     \<or> (\<exists>name retryName.
            made = [SelectFrom scenarios_table, SelectFrom scenarios_table,
                    InsertInto scenarios_table name None, SelectFrom scenarios_table,
                    InsertInto scenarios_table retryName None])"
    unfolding ensureScenario_steps Let_def requests_made_def
    by (simp split: list.split)
  show "let made = requests_made wl (snd (ensureProject_legacy u t wl))
      in made = [SelectFrom projects_table]
       \<or> (\<exists>name. made = [SelectFrom projects_table, SelectFrom projects_table,
                           InsertInto projects_table name None])
       \<or> (\<exists>name retryName.
              made = [SelectFrom projects_table, SelectFrom projects_table,
                      InsertInto projects_table name None, SelectFrom projects_table,
                      InsertInto projects_table retryName None])"
    unfolding ensureProject_legacy_steps Let_def requests_made_def
    by (simp split: list.split)
qed (simp_all add: ensureProject_steps ensureScenario_steps ensureProject_legacy_steps
       requests_made_def race_on_project_def race_on_scenario_def race_on_legacy_project_def
       getModulePrefix_def world_eval name_eval order_eval)

subsection \<open>Renaming\<close>



















end
